theory Spec2Isabelle
  imports Main "HOL-Library.Sublist"
begin

section \<open>Data model of the scan ledger (QrScannerCamera.tsx)\<close>

text \<open>
  The records that \<open>processQrScan\<close> reads and writes are untyped JSON objects. The fields the
  code touches are record fields here; whatever else an object carries, and the spread
  \<open>...member\<close> copies, is the extension slot of the record scheme (\<open>member.more\<close>).
  Numbers are \<open>int\<close>, identifiers are \<open>nat\<close> (the store sorts by them), timestamps are the ISO
  strings of \<open>new Date().toISOString()\<close>; a nullable column is an \<open>option\<close>.
\<close>

type_synonym ident = nat
type_synonym timestamp = string

record member =
  m_id :: ident
  qr_code :: string
  m_name :: string
  member_type_id :: ident
  points :: int
  m_total_scans :: int
  points_to_reward :: int
  reward_due :: bool
  reward_earned_at :: "timestamp option"
  last_scan_at :: "timestamp option"

record member_type =
  mt_id :: ident
  mt_name :: string
  scans_required :: int
  reward_type_id :: ident
  mt_total_scans :: int

record scan_log =
  scanned_value :: string

record redeem_log =
  rl_member_id :: ident
  rl_reward_type_id :: ident

text \<open>The interface \<open>DialogContentData\<close>.\<close>

record dialog_content_data =
  memberType :: string
  memberName :: string
  dlg_points :: int
  scansRequiredForReward :: int

text \<open>A call of \<open>notify(message, { type })\<close>.\<close>

datatype notification = Notify string string

text \<open>The four writes of one scan, as the store receives them.\<close>

datatype store_write = WMember ident | WMemberType ident | WScanLog | WRedeemLog

text \<open>
  The state behind the data provider: the four collections of the scan ledger and the journal
  of the writes the store has accepted, oldest first.
\<close>

record ('a, 'b) store =
  members :: "'a member_scheme list"
  member_types :: "'b member_type_scheme list"
  scan_logs :: "scan_log list"
  redeem_logs :: "redeem_log list"
  journal :: "store_write list"

text \<open>
  The six data-provider calls of \<open>processQrScan\<close>. Each of them is awaited inside the
  \<open>try\<close> block and may reject (transport error, not found, conflict); which calls reject is
  the environment's choice, a predicate on calls.
\<close>

datatype call = GetMembers | GetMemberType | UpdateMember | UpdateMemberType
  | CreateScanLog | CreateRedeemLog

type_synonym faults = "call \<Rightarrow> bool"

definition no_fault :: faults where
  "no_fault c = False"

subsection \<open>The record store client\<close>

text \<open>
  Modelled from the spec: the data provider (\<open>useDataProvider\<close>, the REST client and the
  server behind it) is not part of the sources. Its four operations are as sections 2 and 6
  of the specification give them: \<open>getList\<close> returns the requested page of the records that
  match the filter, in the requested order; \<open>getOne\<close> returns the record with the given id;
  \<open>update\<close> replaces the record with the given id by the data sent; \<open>create\<close> appends a
  record. A rejected call changes nothing.
\<close>

definition matching :: "('a, 'b) store \<Rightarrow> string \<Rightarrow> 'a member_scheme list" where
  "matching s code = filter (\<lambda>m. qr_code m = code) (members s)"

definition getList_members ::
  "('a, 'b) store \<Rightarrow> string \<Rightarrow> nat \<Rightarrow> 'a member_scheme list" where
  "getList_members s code perPage = take perPage (sort_key m_id (matching s code))"

definition getOne_member_type ::
  "('a, 'b) store \<Rightarrow> ident \<Rightarrow> 'b member_type_scheme option" where
  "getOne_member_type s i = find (\<lambda>t. mt_id t = i) (member_types s)"

definition getOne_member :: "('a, 'b) store \<Rightarrow> ident \<Rightarrow> 'a member_scheme option" where
  "getOne_member s i = find (\<lambda>m. m_id m = i) (members s)"

definition update_member ::
  "('a, 'b) store \<Rightarrow> ident \<Rightarrow> 'a member_scheme \<Rightarrow> ('a, 'b) store option" where
  "update_member s i d =
     (if i \<in> m_id ` set (members s)
      then Some (s\<lparr>members := map (\<lambda>m. if m_id m = i then d else m) (members s),
                   journal := journal s @ [WMember i]\<rparr>)
      else None)"

definition update_member_type ::
  "('a, 'b) store \<Rightarrow> ident \<Rightarrow> 'b member_type_scheme \<Rightarrow> ('a, 'b) store option" where
  "update_member_type s i d =
     (if i \<in> mt_id ` set (member_types s)
      then Some (s\<lparr>member_types := map (\<lambda>t. if mt_id t = i then d else t) (member_types s),
                   journal := journal s @ [WMemberType i]\<rparr>)
      else None)"

definition create_scan_log :: "('a, 'b) store \<Rightarrow> scan_log \<Rightarrow> ('a, 'b) store" where
  "create_scan_log s d = s\<lparr>scan_logs := scan_logs s @ [d], journal := journal s @ [WScanLog]\<rparr>"

definition create_redeem_log :: "('a, 'b) store \<Rightarrow> redeem_log \<Rightarrow> ('a, 'b) store" where
  "create_redeem_log s d =
     s\<lparr>redeem_logs := redeem_logs s @ [d], journal := journal s @ [WRedeemLog]\<rparr>"

subsection \<open>processQrScan\<close>

text \<open>
  JavaScript's \<open>!member.reward_earned_at\<close>: true for \<open>null\<close>, \<open>undefined\<close> and the empty
  string.
\<close>

definition falsy :: "timestamp option \<Rightarrow> bool" where
  "falsy t = (case t of None \<Rightarrow> True | Some v \<Rightarrow> v = [])"

text \<open>Step 3 of the source (lines 103 to 106).\<close>

definition newMemberPoints :: "'a member_scheme \<Rightarrow> int" where
  "newMemberPoints member = points member + 1"

definition newPointsToReward :: "'a member_scheme \<Rightarrow> 'b member_type_scheme \<Rightarrow> int" where
  "newPointsToReward member mtype = scans_required mtype - newMemberPoints member"

definition rewardDue :: "'a member_scheme \<Rightarrow> 'b member_type_scheme \<Rightarrow> bool" where
  "rewardDue member mtype = (newPointsToReward member mtype \<le> 0)"

text \<open>Step 4 (lines 109 to 117): the payload of the member update.\<close>

definition memberUpdateData ::
  "'a member_scheme \<Rightarrow> 'b member_type_scheme \<Rightarrow> timestamp \<Rightarrow> 'a member_scheme" where
  "memberUpdateData member mtype now =
     member\<lparr>m_total_scans := m_total_scans member + 1,
            points := (if rewardDue member mtype then 0 else newMemberPoints member),
            points_to_reward := newPointsToReward member mtype,
            reward_due := rewardDue member mtype,
            reward_earned_at :=
              (if rewardDue member mtype \<and> falsy (reward_earned_at member)
               then Some now else reward_earned_at member),
            last_scan_at := Some now\<rparr>"

text \<open>The payload of the member-type update (lines 129 to 132).\<close>

definition memberTypeUpdateData :: "'b member_type_scheme \<Rightarrow> 'b member_type_scheme" where
  "memberTypeUpdateData mtype = mtype\<lparr>mt_total_scans := mt_total_scans mtype + 1\<rparr>"

text \<open>The value returned for the dialog (lines 151 to 156).\<close>

definition dialogData ::
  "'a member_scheme \<Rightarrow> 'b member_type_scheme \<Rightarrow> dialog_content_data" where
  "dialogData member mtype =
     \<lparr>memberType = mt_name mtype, memberName = m_name member,
      dlg_points = (if rewardDue member mtype then 0 else newMemberPoints member),
      scansRequiredForReward = scans_required mtype\<rparr>"

text \<open>
  Steps 1 and 2 (lines 82 to 100), the two reads: \<open>getList\<close> with the filter
  \<open>{ qr_code: qrCode }\<close>, sorted by \<open>id\<close> ascending, page 1 of one record per page, and
  \<open>getOne\<close> of the member's type. \<open>LookupThrew\<close> is a rejected call, which the \<open>catch\<close> of
  line 157 receives. A member type that the store does not hold is the branch
  \<open>if (!memberType)\<close>; a store that answers a missing record with an error instead is the
  environment that rejects \<open>GetMemberType\<close>.
\<close>

datatype ('a, 'b) lookup_result =
  LookupThrew
  | NoMember
  | NoMemberType
  | Found "'a member_scheme" "'b member_type_scheme"

definition lookup :: "faults \<Rightarrow> ('a, 'b) store \<Rightarrow> string \<Rightarrow> ('a, 'b) lookup_result" where
  "lookup fault s qrCode =
     (if fault GetMembers then LookupThrew
      else case getList_members s qrCode 1 of
        [] \<Rightarrow> NoMember
      | member # rest \<Rightarrow>
          if fault GetMemberType then LookupThrew
          else case getOne_member_type s (member_type_id member) of
            None \<Rightarrow> NoMemberType
          | Some mtype \<Rightarrow> Found member mtype)"

text \<open>
  Steps 5 to 7 (lines 120 to 156), the writes, each awaited before the next is issued. The
  result is \<open>None\<close> when a call rejected, with the store as the writes before it left it.
\<close>

definition commit ::
  "faults \<Rightarrow> ('a, 'b) store \<Rightarrow> string \<Rightarrow> timestamp \<Rightarrow> 'a member_scheme \<Rightarrow>
   'b member_type_scheme \<Rightarrow> dialog_content_data option \<times> ('a, 'b) store" where
  "commit fault s qrCode now member mtype =
     (if fault UpdateMember then (None, s)
      else case update_member s (m_id member) (memberUpdateData member mtype now) of
        None \<Rightarrow> (None, s)
      | Some s1 \<Rightarrow>
          if fault UpdateMemberType then (None, s1)
          else case update_member_type s1 (mt_id mtype) (memberTypeUpdateData mtype) of
            None \<Rightarrow> (None, s1)
          | Some s2 \<Rightarrow>
              if fault CreateScanLog then (None, s2)
              else let s3 = create_scan_log s2 \<lparr>scanned_value = qrCode\<rparr> in
                if rewardDue member mtype
                then (if fault CreateRedeemLog then (None, s3)
                      else (Some (dialogData member mtype),
                            create_redeem_log s3
                              \<lparr>rl_member_id = m_id member,
                               rl_reward_type_id = reward_type_id mtype\<rparr>))
                else (Some (dialogData member mtype), s3))"

definition msg_no_member :: notification where
  "msg_no_member = Notify ''No member found with this QR code'' ''error''"

definition msg_no_member_type :: notification where
  "msg_no_member_type = Notify ''No Member Type found for this member'' ''warning''"

definition msg_error :: notification where
  "msg_error =
     Notify ''Error processing QR scan, account may have just been scanned.'' ''error''"

text \<open>
  What a call of \<open>processQrScan\<close> leaves: the value it returns (\<open>None\<close> is \<open>null\<close>), the
  notifications it raised, and the store.
\<close>

type_synonym ('a, 'b) scan_outcome =
  "dialog_content_data option \<times> notification list \<times> ('a, 'b) store"

text \<open>The part of \<open>processQrScan\<close> that runs once the two reads have returned.\<close>

definition finish ::
  "faults \<Rightarrow> ('a, 'b) store \<Rightarrow> string \<Rightarrow> timestamp \<Rightarrow> ('a, 'b) lookup_result \<Rightarrow>
   ('a, 'b) scan_outcome" where
  "finish fault s qrCode now r =
     (case r of
        LookupThrew \<Rightarrow> (None, [msg_error], s)
      | NoMember \<Rightarrow> (None, [msg_no_member], s)
      | NoMemberType \<Rightarrow> (None, [msg_no_member_type], s)
      | Found member mtype \<Rightarrow>
          (case commit fault s qrCode now member mtype of
             (None, s') \<Rightarrow> (None, [msg_error], s')
           | (Some d, s') \<Rightarrow> (Some d, [], s')))"

definition processQrScan ::
  "faults \<Rightarrow> ('a, 'b) store \<Rightarrow> string \<Rightarrow> timestamp \<Rightarrow> ('a, 'b) scan_outcome" where
  "processQrScan fault s qrCode now = finish fault s qrCode now (lookup fault s qrCode)"

text \<open>Projections of an outcome.\<close>

definition result_of :: "('a, 'b) scan_outcome \<Rightarrow> dialog_content_data option" where
  "result_of out = fst out"

definition notes_of :: "('a, 'b) scan_outcome \<Rightarrow> notification list" where
  "notes_of out = fst (snd out)"

definition store_of :: "('a, 'b) scan_outcome \<Rightarrow> ('a, 'b) store" where
  "store_of out = snd (snd out)"

text \<open>
  The order in which one call issues its writes: member, member type, scan log, and the
  redeem log under \<open>if (rewardDue)\<close>.
\<close>

definition write_order :: "'a member_scheme \<Rightarrow> 'b member_type_scheme \<Rightarrow> store_write list" where
  "write_order member mtype =
     [WMember (m_id member), WMemberType (mt_id mtype), WScanLog]
     @ (if rewardDue member mtype then [WRedeemLog] else [])"

text \<open>The environment in which exactly one call rejects.\<close>

definition fail_at :: "call \<Rightarrow> faults" where
  "fail_at c x = (x = c)"

text \<open>
  The store after the writes \<open>ws\<close> of a call have taken effect and no other: each collection
  is changed exactly when its write is in \<open>ws\<close>.
\<close>

definition effects ::
  "('a, 'b) store \<Rightarrow> string \<Rightarrow> timestamp \<Rightarrow> 'a member_scheme \<Rightarrow> 'b member_type_scheme \<Rightarrow>
   store_write list \<Rightarrow> ('a, 'b) store" where
  "effects s code now m t ws =
     s\<lparr>members :=
         (if WMember (m_id m) \<in> set ws
          then map (\<lambda>x. if m_id x = m_id m then memberUpdateData m t now else x) (members s)
          else members s),
       member_types :=
         (if WMemberType (mt_id t) \<in> set ws
          then map (\<lambda>x. if mt_id x = mt_id t then memberTypeUpdateData t else x) (member_types s)
          else member_types s),
       scan_logs :=
         (if WScanLog \<in> set ws then scan_logs s @ [\<lparr>scanned_value = code\<rparr>] else scan_logs s),
       redeem_logs :=
         (if WRedeemLog \<in> set ws
          then redeem_logs s @ [\<lparr>rl_member_id = m_id m, rl_reward_type_id = reward_type_id t\<rparr>]
          else redeem_logs s),
       journal := journal s @ ws\<rparr>"

subsection \<open>Two calls of processQrScan\<close>

text \<open>
  Two calls, the second started after the first has returned.
\<close>

definition sequential ::
  "faults \<Rightarrow> faults \<Rightarrow> ('a, 'b) store \<Rightarrow> string \<Rightarrow> timestamp \<Rightarrow> timestamp \<Rightarrow>
   dialog_content_data option \<times> dialog_content_data option \<times> ('a, 'b) store" where
  "sequential fA fB s qrCode nowA nowB =
     (case processQrScan fA s qrCode nowA of
        (dA, nA, s1) \<Rightarrow>
          (case processQrScan fB s1 qrCode nowB of
             (dB, nB, s2) \<Rightarrow> (dA, dB, s2)))"

text \<open>
  Two calls in flight together. A call can be suspended only at an \<open>await\<close>; there is no
  lock, flag or version check inside \<open>processQrScan\<close>, so the second call may complete its two
  reads while the first is still waiting for its own. This is that schedule: both calls read
  the store as it was, then the first performs its writes, then the second.
\<close>

definition interleaved ::
  "faults \<Rightarrow> faults \<Rightarrow> ('a, 'b) store \<Rightarrow> string \<Rightarrow> timestamp \<Rightarrow> timestamp \<Rightarrow>
   dialog_content_data option \<times> dialog_content_data option \<times> ('a, 'b) store" where
  "interleaved fA fB s qrCode nowA nowB =
     (let rA = lookup fA s qrCode; rB = lookup fB s qrCode in
      case finish fA s qrCode nowA rA of
        (dA, nA, s1) \<Rightarrow>
          (case finish fB s1 qrCode nowB rB of
             (dB, nB, s2) \<Rightarrow> (dA, dB, s2)))"

subsection \<open>handleScan\<close>

text \<open>
  The component state that \<open>handleScan\<close> reads and sets (lines 32 to 36), and \<open>handleScan\<close>
  itself (lines 169 to 186). \<open>data\<close> is the array of detected codes, each reduced to its
  \<open>rawValue\<close>; \<open>None\<close> is a missing array. On an empty array \<open>data[0].rawValue\<close> raises after
  the scanner has been paused.
\<close>

record ui_state =
  openDialog :: bool
  timer :: nat
  scanningPaused :: bool
  rewardDueState :: bool
  dialogContent :: "dialog_content_data option"

definition msg_visit_logged :: notification where
  "msg_visit_logged = Notify ''Visit logged successfully'' ''success''"

definition handleScan ::
  "faults \<Rightarrow> ui_state \<Rightarrow> ('a, 'b) store \<Rightarrow> string list option \<Rightarrow> timestamp \<Rightarrow>
   ui_state \<times> notification list \<times> ('a, 'b) store" where
  "handleScan fault ui s data now =
     (if scanningPaused ui then (ui, [], s)
      else case data of
        None \<Rightarrow> (ui, [], s)
      | Some [] \<Rightarrow> (ui\<lparr>scanningPaused := True\<rparr>, [], s)
      | Some (rawValue # others) \<Rightarrow>
          (case processQrScan fault s rawValue now of
             (Some d, ns, s') \<Rightarrow>
               (ui\<lparr>scanningPaused := True, dialogContent := Some d, openDialog := True,
                   rewardDueState := (dlg_points d = 0), timer := 30\<rparr>,
                ns @ [msg_visit_logged], s')
           | (None, ns, s') \<Rightarrow> (ui\<lparr>scanningPaused := False\<rparr>, ns, s')))"

section \<open>Reconciliation of pending members (lib.ts, airtableFetch)\<close>

text \<open>The interface \<open>AirtableResponse\<close> of the type declarations.\<close>

record airtable_fields =
  QR_Code :: string
  Email :: string
  Name :: string
  Membership_Type :: string
  Created :: string

record airtable_record =
  at_id :: string
  createdTime :: string
  at_fields :: airtable_fields

text \<open>A pending member as \<open>airtableFetch\<close> builds it (lines 78 to 87) and sends it to \<open>create\<close>.\<close>

record pending_member =
  airtable_id :: string
  pm_name :: string
  email :: string
  membership_type :: string
  qr_code_url :: string
  created_at :: string
  status :: string
  source :: string

definition to_member :: "airtable_record \<Rightarrow> pending_member" where
  "to_member r =
     \<lparr>airtable_id = at_id r, pm_name = Name (at_fields r), email = Email (at_fields r),
      membership_type = Membership_Type (at_fields r), qr_code_url = QR_Code (at_fields r),
      created_at = Created (at_fields r), status = ''pending'', source = ''Airtable''\<rparr>"

text \<open>
  \<open>String.prototype.toLowerCase\<close> is a built-in of the language, not a function of the
  sources, and it lowers by the Unicode case mapping, which a function on the bytes of a
  \<open>string\<close> cannot give in full. The model takes it as a parameter: every definition below that
  lower-cases an email has an argument \<open>toLowerCase\<close>, any function on strings, and the
  theorems about a run hold whatever that function is.

  The examples need a function to run with. On a string of ASCII characters
  \<open>toLowerCase\<close> moves the letters A to Z to a to z and leaves every other character;
  \<open>ascii_lower\<close> is that function, and the examples use strings of ASCII characters only.
\<close>

definition lower_char :: "char \<Rightarrow> char" where
  "lower_char c =
     (if (65::nat) \<le> of_char c \<and> of_char c \<le> (90::nat) then char_of (of_char c + (32::nat))
      else c)"

definition ascii_lower :: "string \<Rightarrow> string" where
  "ascii_lower s = map lower_char s"

text \<open>
  Modelled from the spec: the data provider behind \<open>getList\<close> and \<open>create\<close> is not part of
  the sources; sections 2 and 6 of the specification give the two operations. The collection
  \<open>pending_members\<close> is the list of its records in ascending \<open>id\<close>; the server numbers a
  created record after all others, so \<open>create\<close> appends.

  \<open>existingMembers\<close> is \<open>existingMembersResponse.data\<close>: page 1 of the collection at 1000
  records per page, sorted by \<open>id\<close> ascending, with the empty filter (lines 90 to 96).
\<close>

type_synonym pending_store = "pending_member list"

definition existingMembers :: "pending_store \<Rightarrow> pending_member list" where
  "existingMembers store = take 1000 store"

text \<open>The two lookup sets (lines 99 and 100).\<close>

definition existingAirtableIds :: "pending_member list \<Rightarrow> string set" where
  "existingAirtableIds existing = set (map airtable_id existing)"

definition existingEmails :: "(string \<Rightarrow> string) \<Rightarrow> pending_member list \<Rightarrow> string set" where
  "existingEmails toLowerCase existing =
     set (map (\<lambda>member. toLowerCase (email member)) existing)"

text \<open>The filter of lines 103 to 106.\<close>

definition newMembers ::
  "(string \<Rightarrow> string) \<Rightarrow> pending_member list \<Rightarrow> pending_member list \<Rightarrow>
   pending_member list" where
  "newMembers toLowerCase candidates existing =
     filter (\<lambda>member. airtable_id member \<notin> existingAirtableIds existing
                     \<and> toLowerCase (email member) \<notin> existingEmails toLowerCase existing)
       candidates"

text \<open>
  The loop of lines 109 to 115: one \<open>create\<close> per new member, each in a \<open>try\<close> of its own.
  \<open>rejects i\<close> tells whether the store rejects the \<open>i\<close>-th call of the loop.

  Modelled from the spec: the sources end inside the \<open>catch\<close> of this loop, after the call of
  \<open>console.error\<close>. Section 4.2, step 6 of the specification gives the rest: a creation failure
  is logged and does not abort the batch, so the loop goes on with the next member.
\<close>

fun create_all ::
  "(nat \<Rightarrow> bool) \<Rightarrow> nat \<Rightarrow> pending_member list \<Rightarrow> pending_store \<Rightarrow> pending_store" where
  "create_all rejects i [] store = store"
| "create_all rejects i (member # rest) store =
     create_all rejects (Suc i) rest (if rejects i then store else store @ [member])"

text \<open>
  What the run meets outside the function: the status and the records of the Airtable
  response, whether the read of the existing pending members is rejected, and which calls of
  \<open>create\<close> are.
\<close>

record sync_env =
  http_status :: nat
  records :: "airtable_record list"
  getList_rejects :: bool
  create_rejects :: "nat \<Rightarrow> bool"

datatype sync_error = AirtableRequestFailed | StoreReadFailed

text \<open>
  \<open>airtableFetch\<close>: \<open>Inl\<close> is the error thrown (nothing has been written by then), \<open>Inr\<close> the
  collection after the run. The first argument is the built-in \<open>toLowerCase\<close>.
\<close>

definition airtableFetch ::
  "(string \<Rightarrow> string) \<Rightarrow> sync_env \<Rightarrow> pending_store \<Rightarrow> sync_error + pending_store" where
  "airtableFetch toLowerCase env store =
     (if http_status env \<ge> 400 then Inl AirtableRequestFailed
      else let candidates = map to_member (records env) in
        if getList_rejects env then Inl StoreReadFailed
        else Inr (create_all (create_rejects env) 0
                    (newMembers toLowerCase candidates (existingMembers store)) store))"

text \<open>The records a run has added to the collection.\<close>

definition created_by :: "pending_store \<Rightarrow> pending_store \<Rightarrow> pending_member list" where
  "created_by store store' = drop (length store) store'"

text \<open>
  The uniqueness invariant of the data model (specification, section 3): no two pending
  members share an \<open>airtableId\<close>, and no two share an email up to case.
\<close>

definition pending_unique :: "(string \<Rightarrow> string) \<Rightarrow> pending_store \<Rightarrow> bool" where
  "pending_unique toLowerCase store =
     (distinct (map airtable_id store)
      \<and> distinct (map (\<lambda>member. toLowerCase (email member)) store))"

definition never :: "nat \<Rightarrow> bool" where
  "never i = False"

section \<open>Example data\<close>

text \<open>
  The scenario of the specification's section 8: a member with two points whose type asks for
  three scans.
\<close>

definition ex_member :: member where
  "ex_member =
     \<lparr>m_id = 1, qr_code = ''QR-1'', m_name = ''Ada'', member_type_id = 1, points = 2,
      m_total_scans = 7, points_to_reward = 1, reward_due = False, reward_earned_at = None,
      last_scan_at = None\<rparr>"

definition ex_type :: member_type where
  "ex_type =
     \<lparr>mt_id = 1, mt_name = ''Gold'', scans_required = 3, reward_type_id = 5,
      mt_total_scans = 40\<rparr>"

definition ex_store :: "(unit, unit) store" where
  "ex_store =
     \<lparr>members = [ex_member], member_types = [ex_type], scan_logs = [], redeem_logs = [],
      journal = []\<rparr>"

text \<open>The same store after one accepted scan at time \<open>T1\<close>.\<close>

definition ex_member_scanned :: member where
  "ex_member_scanned =
     \<lparr>m_id = 1, qr_code = ''QR-1'', m_name = ''Ada'', member_type_id = 1, points = 0,
      m_total_scans = 8, points_to_reward = 0, reward_due = True,
      reward_earned_at = Some ''T1'', last_scan_at = Some ''T1''\<rparr>"

definition ex_type_scanned :: member_type where
  "ex_type_scanned =
     \<lparr>mt_id = 1, mt_name = ''Gold'', scans_required = 3, reward_type_id = 5,
      mt_total_scans = 41\<rparr>"

definition ex_dialog :: dialog_content_data where
  "ex_dialog =
     \<lparr>memberType = ''Gold'', memberName = ''Ada'', dlg_points = 0,
      scansRequiredForReward = 3\<rparr>"

definition ex_store_scanned :: "(unit, unit) store" where
  "ex_store_scanned =
     \<lparr>members = [ex_member_scanned], member_types = [ex_type_scanned],
      scan_logs = [\<lparr>scanned_value = ''QR-1''\<rparr>],
      redeem_logs = [\<lparr>rl_member_id = 1, rl_reward_type_id = 5\<rparr>],
      journal = [WMember 1, WMemberType 1, WScanLog, WRedeemLog]\<rparr>"

text \<open>A second member that carries the same code.\<close>

definition ex_twin :: member where
  "ex_twin =
     \<lparr>m_id = 2, qr_code = ''QR-1'', m_name = ''Bob'', member_type_id = 1, points = 0,
      m_total_scans = 0, points_to_reward = 3, reward_due = False, reward_earned_at = None,
      last_scan_at = None\<rparr>"

definition dup_store :: "(unit, unit) store" where
  "dup_store =
     \<lparr>members = [ex_member, ex_twin], member_types = [ex_type], scan_logs = [],
      redeem_logs = [], journal = []\<rparr>"

text \<open>The example store after a scan whose scan-log call was rejected.\<close>

definition ex_store_partial :: "(unit, unit) store" where
  "ex_store_partial =
     \<lparr>members = [ex_member_scanned], member_types = [ex_type_scanned], scan_logs = [],
      redeem_logs = [], journal = [WMember 1, WMemberType 1]\<rparr>"

text \<open>After two calls that both read the store before either wrote.\<close>

definition ex_member_raced :: member where
  "ex_member_raced =
     \<lparr>m_id = 1, qr_code = ''QR-1'', m_name = ''Ada'', member_type_id = 1, points = 0,
      m_total_scans = 8, points_to_reward = 0, reward_due = True,
      reward_earned_at = Some ''T2'', last_scan_at = Some ''T2''\<rparr>"

definition ex_store_raced :: "(unit, unit) store" where
  "ex_store_raced =
     \<lparr>members = [ex_member_raced], member_types = [ex_type_scanned],
      scan_logs = [\<lparr>scanned_value = ''QR-1''\<rparr>, \<lparr>scanned_value = ''QR-1''\<rparr>],
      redeem_logs = [\<lparr>rl_member_id = 1, rl_reward_type_id = 5\<rparr>,
                     \<lparr>rl_member_id = 1, rl_reward_type_id = 5\<rparr>],
      journal = [WMember 1, WMemberType 1, WScanLog, WRedeemLog,
                 WMember 1, WMemberType 1, WScanLog, WRedeemLog]\<rparr>"

text \<open>After two calls, one after the other, at times \<open>T1\<close> and \<open>T2\<close>.\<close>

definition ex_member_twice :: member where
  "ex_member_twice =
     \<lparr>m_id = 1, qr_code = ''QR-1'', m_name = ''Ada'', member_type_id = 1, points = 1,
      m_total_scans = 9, points_to_reward = 2, reward_due = False,
      reward_earned_at = Some ''T1'', last_scan_at = Some ''T2''\<rparr>"

definition ex_type_twice :: member_type where
  "ex_type_twice =
     \<lparr>mt_id = 1, mt_name = ''Gold'', scans_required = 3, reward_type_id = 5,
      mt_total_scans = 42\<rparr>"

definition ex_dialog_twice :: dialog_content_data where
  "ex_dialog_twice =
     \<lparr>memberType = ''Gold'', memberName = ''Ada'', dlg_points = 1,
      scansRequiredForReward = 3\<rparr>"

definition ex_store_twice :: "(unit, unit) store" where
  "ex_store_twice =
     \<lparr>members = [ex_member_twice], member_types = [ex_type_twice],
      scan_logs = [\<lparr>scanned_value = ''QR-1''\<rparr>, \<lparr>scanned_value = ''QR-1''\<rparr>],
      redeem_logs = [\<lparr>rl_member_id = 1, rl_reward_type_id = 5\<rparr>],
      journal = [WMember 1, WMemberType 1, WScanLog, WRedeemLog,
                 WMember 1, WMemberType 1, WScanLog]\<rparr>"

text \<open>The store with the shared code after one scan of it.\<close>

definition dup_store_scanned :: "(unit, unit) store" where
  "dup_store_scanned =
     \<lparr>members = [ex_member_scanned, ex_twin], member_types = [ex_type_scanned],
      scan_logs = [\<lparr>scanned_value = ''QR-1''\<rparr>],
      redeem_logs = [\<lparr>rl_member_id = 1, rl_reward_type_id = 5\<rparr>],
      journal = [WMember 1, WMemberType 1, WScanLog, WRedeemLog]\<rparr>"

text \<open>A member type that rewards every scan.\<close>

definition ex_type_single :: member_type where
  "ex_type_single =
     \<lparr>mt_id = 1, mt_name = ''Daily'', scans_required = 1, reward_type_id = 5,
      mt_total_scans = 0\<rparr>"

definition ex_member_single :: member where
  "ex_member_single =
     \<lparr>m_id = 1, qr_code = ''QR-1'', m_name = ''Ada'', member_type_id = 1, points = 0,
      m_total_scans = 0, points_to_reward = 1, reward_due = False, reward_earned_at = None,
      last_scan_at = None\<rparr>"

definition single_store :: "(unit, unit) store" where
  "single_store =
     \<lparr>members = [ex_member_single], member_types = [ex_type_single], scan_logs = [],
      redeem_logs = [], journal = []\<rparr>"

text \<open>
  A collection that fills the page of 1000 records exactly, and an application that arrives
  after it. \<open>digits\<close> writes a number in decimal.
\<close>

fun digits :: "nat \<Rightarrow> string" where
  "digits n = (if n < 10 then [char_of (48 + n)]
               else digits (n div 10) @ [char_of (48 + n mod 10)])"

declare digits.simps [simp del]

definition nth_pending :: "nat \<Rightarrow> pending_member" where
  "nth_pending n =
     \<lparr>airtable_id = ''rec'' @ digits n, pm_name = ''Member '' @ digits n,
      email = ''user'' @ digits n @ ''@x.com'', membership_type = ''Gold'',
      qr_code_url = ''https://x.com/qr/'' @ digits n, created_at = ''2024-01-01'',
      status = ''pending'', source = ''Airtable''\<rparr>"

definition page_store :: pending_store where
  "page_store = map nth_pending [0..<1000]"

definition late_record :: airtable_record where
  "late_record =
     \<lparr>at_id = ''app1'', createdTime = ''2024-06-01'',
      at_fields = \<lparr>QR_Code = ''https://x.com/qr/zoe'', Email = ''zoe@x.com'', Name = ''Zoe'',
                    Membership_Type = ''Gold'', Created = ''2024-06-01''\<rparr>\<rparr>"

definition late_member :: pending_member where
  "late_member =
     \<lparr>airtable_id = ''app1'', pm_name = ''Zoe'', email = ''zoe@x.com'',
      membership_type = ''Gold'', qr_code_url = ''https://x.com/qr/zoe'',
      created_at = ''2024-06-01'', status = ''pending'', source = ''Airtable''\<rparr>"

definition late_env :: sync_env where
  "late_env =
     \<lparr>http_status = 200, records = [late_record], getList_rejects = False,
      create_rejects = never\<rparr>"

text \<open>
  A collection of one pending member with the email \<open>a@x.com\<close>, and applications with the
  emails \<open>A@x.com\<close> and \<open>a@x.com\<close> under ids of their own.
\<close>

definition old_member :: pending_member where
  "old_member =
     \<lparr>airtable_id = ''rec0'', pm_name = ''Ann'', email = ''a@x.com'',
      membership_type = ''Gold'', qr_code_url = ''https://x.com/qr/ann'',
      created_at = ''2024-01-01'', status = ''pending'', source = ''Airtable''\<rparr>"

definition upper_record :: airtable_record where
  "upper_record =
     \<lparr>at_id = ''rec1'', createdTime = ''2024-06-01'',
      at_fields = \<lparr>QR_Code = ''https://x.com/qr/ann2'', Email = ''A@x.com'', Name = ''Ann'',
                    Membership_Type = ''Gold'', Created = ''2024-06-01''\<rparr>\<rparr>"

definition lower_record :: airtable_record where
  "lower_record =
     \<lparr>at_id = ''rec2'', createdTime = ''2024-06-02'',
      at_fields = \<lparr>QR_Code = ''https://x.com/qr/ann3'', Email = ''a@x.com'', Name = ''Ann'',
                    Membership_Type = ''Gold'', Created = ''2024-06-02''\<rparr>\<rparr>"

text \<open>An application under the id of the stored member, with an email of its own.\<close>

definition known_id_record :: airtable_record where
  "known_id_record =
     \<lparr>at_id = ''rec0'', createdTime = ''2024-06-03'',
      at_fields = \<lparr>QR_Code = ''https://x.com/qr/ben'', Email = ''ben@x.com'', Name = ''Ben'',
                    Membership_Type = ''Gold'', Created = ''2024-06-03''\<rparr>\<rparr>"

definition three_env :: sync_env where
  "three_env =
     \<lparr>http_status = 200, records = [known_id_record, upper_record, late_record],
      getList_rejects = False, create_rejects = never\<rparr>"

text \<open>An application under the id \<open>app1\<close> of the late application, with an email of its own.\<close>

definition same_id_record :: airtable_record where
  "same_id_record =
     \<lparr>at_id = ''app1'', createdTime = ''2024-06-04'',
      at_fields = \<lparr>QR_Code = ''https://x.com/qr/zed'', Email = ''zed@x.com'', Name = ''Zed'',
                    Membership_Type = ''Gold'', Created = ''2024-06-04''\<rparr>\<rparr>"

definition same_id_member :: pending_member where
  "same_id_member =
     \<lparr>airtable_id = ''app1'', pm_name = ''Zed'', email = ''zed@x.com'',
      membership_type = ''Gold'', qr_code_url = ''https://x.com/qr/zed'',
      created_at = ''2024-06-04'', status = ''pending'', source = ''Airtable''\<rparr>"

definition same_id_env :: sync_env where
  "same_id_env =
     \<lparr>http_status = 200, records = [same_id_record], getList_rejects = False,
      create_rejects = never\<rparr>"

definition mixed_env :: sync_env where
  "mixed_env =
     \<lparr>http_status = 200, records = [upper_record, late_record], getList_rejects = False,
      create_rejects = never\<rparr>"

definition twin_env :: sync_env where
  "twin_env =
     \<lparr>http_status = 200, records = [upper_record, lower_record], getList_rejects = False,
      create_rejects = never\<rparr>"

text \<open>The pending members built from the two applications that share an email.\<close>

definition twin_upper :: pending_member where
  "twin_upper =
     \<lparr>airtable_id = ''rec1'', pm_name = ''Ann'', email = ''A@x.com'',
      membership_type = ''Gold'', qr_code_url = ''https://x.com/qr/ann2'',
      created_at = ''2024-06-01'', status = ''pending'', source = ''Airtable''\<rparr>"

definition twin_lower :: pending_member where
  "twin_lower =
     \<lparr>airtable_id = ''rec2'', pm_name = ''Ann'', email = ''a@x.com'',
      membership_type = ''Gold'', qr_code_url = ''https://x.com/qr/ann3'',
      created_at = ''2024-06-02'', status = ''pending'', source = ''Airtable''\<rparr>"

text \<open>A store that rejects every \<open>create\<close>.\<close>

definition always :: "nat \<Rightarrow> bool" where
  "always i = True"

definition down_env :: sync_env where
  "down_env =
     \<lparr>http_status = 200, records = [late_record], getList_rejects = False,
      create_rejects = always\<rparr>"

section \<open>The scan ledger: what one call does\<close>

subsection \<open>The reads\<close>

lemma sort_key_hd_min:
  assumes "sort_key f xs = y # ys" and "x \<in> set xs"
  shows "f y \<le> f x"
proof -
  have "sorted (map f (sort_key f xs))" by simp
  with assms(1) have "\<forall>z\<in>set ys. f y \<le> f z" by simp
  moreover have "x \<in> set (y # ys)" using assms by (metis set_sort)
  ultimately show ?thesis by auto
qed

lemma take1_Cons: "take (Suc 0) xs = y # ys \<Longrightarrow> \<exists>zs. xs = y # zs \<and> ys = []"
  by (cases xs) auto

lemma getList_members_one:
  assumes "getList_members s code 1 = m # rest"
  shows "rest = [] \<and> m \<in> set (matching s code)
         \<and> (\<forall>x\<in>set (matching s code). m_id m \<le> m_id x)"
proof -
  from assms obtain zs where z: "sort_key m_id (matching s code) = m # zs" and r: "rest = []"
    unfolding getList_members_def using take1_Cons by fastforce
  have "m \<in> set (sort_key m_id (matching s code))" using z by simp
  then have mem: "m \<in> set (matching s code)" by simp
  have "\<forall>x\<in>set (matching s code). m_id m \<le> m_id x" using sort_key_hd_min [OF z] by blast
  with mem r show ?thesis by auto
qed

lemma getList_members_Nil: "getList_members s code 1 = [] \<longleftrightarrow> matching s code = []"
  unfolding getList_members_def
  by (metis length_0_conv length_sort take_eq_Nil zero_neq_one)

lemma matching_iff: "x \<in> set (matching s code) \<longleftrightarrow> x \<in> set (members s) \<and> qr_code x = code"
  by (auto simp: matching_def)

lemma lookup_Found:
  assumes "lookup fault s code = Found m t"
  shows "m \<in> set (matching s code) \<and> t \<in> set (member_types s)
         \<and> mt_id t = member_type_id m
         \<and> getOne_member_type s (member_type_id m) = Some t
         \<and> \<not> fault GetMembers \<and> \<not> fault GetMemberType
         \<and> (\<forall>x\<in>set (matching s code). m_id m \<le> m_id x)"
proof -
  from assms have nf: "\<not> fault GetMembers"
    by (auto simp: lookup_def split: if_splits)
  from assms nf obtain m0 rest where g: "getList_members s code 1 = m0 # rest"
    by (auto simp: lookup_def split: list.splits)
  from assms nf g have nf2: "\<not> fault GetMemberType"
    by (auto simp: lookup_def split: if_splits)
  from assms nf nf2 g have f: "getOne_member_type s (member_type_id m0) = Some t"
    and mm: "m0 = m"
    by (auto simp: lookup_def split: option.splits)
  from f have "t \<in> set (member_types s) \<and> mt_id t = member_type_id m0"
    unfolding getOne_member_type_def by (auto simp: find_Some_iff)
  with getList_members_one [OF g] nf nf2 f mm show ?thesis by auto
qed

lemma lookup_no_match:
  assumes "matching s code = []"
  shows "lookup fault s code = (if fault GetMembers then LookupThrew else NoMember)"
  using assms getList_members_Nil [of s code] by (simp add: lookup_def)

subsection \<open>The writes\<close>

lemma update_member_Some:
  "update_member s i d = Some s1 \<Longrightarrow>
     i \<in> m_id ` set (members s)
     \<and> members s1 = map (\<lambda>m. if m_id m = i then d else m) (members s)
     \<and> member_types s1 = member_types s \<and> scan_logs s1 = scan_logs s
     \<and> redeem_logs s1 = redeem_logs s \<and> journal s1 = journal s @ [WMember i]"
  by (auto simp: update_member_def split: if_splits)

lemma update_member_type_Some:
  "update_member_type s i d = Some s1 \<Longrightarrow>
     i \<in> mt_id ` set (member_types s)
     \<and> member_types s1 = map (\<lambda>t. if mt_id t = i then d else t) (member_types s)
     \<and> members s1 = members s \<and> scan_logs s1 = scan_logs s
     \<and> redeem_logs s1 = redeem_logs s \<and> journal s1 = journal s @ [WMemberType i]"
  by (auto simp: update_member_type_def split: if_splits)

text \<open>
  Whatever the environment does, the store after \<open>commit\<close> is the store before with the
  effects of a prefix of the write order, and the call returns a value exactly when the
  prefix is the whole order.
\<close>

lemma commit_effects:
  "\<exists>ws. prefix ws (write_order m t)
     \<and> snd (commit fault s code now m t) = effects s code now m t ws
     \<and> (fst (commit fault s code now m t) = None \<longleftrightarrow> ws \<noteq> write_order m t)
     \<and> (fst (commit fault s code now m t) \<noteq> None \<longrightarrow>
          fst (commit fault s code now m t) = Some (dialogData m t))"
proof (cases "fault UpdateMember \<or> update_member s (m_id m) (memberUpdateData m t now) = None")
  case True
  then have "snd (commit fault s code now m t) = effects s code now m t []"
    and "fst (commit fault s code now m t) = None"
    by (auto simp: commit_def effects_def)
  then show ?thesis by (intro exI [of _ "[]"]) (simp add: write_order_def)
next
  case False
  then obtain s1 where u1: "update_member s (m_id m) (memberUpdateData m t now) = Some s1"
    and f1: "\<not> fault UpdateMember" by auto
  note a = update_member_Some [OF u1]
  show ?thesis
  proof (cases "fault UpdateMemberType
                \<or> update_member_type s1 (mt_id t) (memberTypeUpdateData t) = None")
    case True
    with u1 f1 a have "snd (commit fault s code now m t) = effects s code now m t [WMember (m_id m)]"
      and "fst (commit fault s code now m t) = None"
      by (auto simp: commit_def effects_def)
    then show ?thesis
      by (intro exI [of _ "[WMember (m_id m)]"]) (simp add: write_order_def)
  next
    case False
    then obtain s2 where
      u2: "update_member_type s1 (mt_id t) (memberTypeUpdateData t) = Some s2"
      and f2: "\<not> fault UpdateMemberType" by auto
    note b = update_member_type_Some [OF u2]
    show ?thesis
    proof (cases "fault CreateScanLog")
      case True
      with u1 f1 u2 f2 a b have
        "snd (commit fault s code now m t)
           = effects s code now m t [WMember (m_id m), WMemberType (mt_id t)]"
        and "fst (commit fault s code now m t) = None"
        by (auto simp: commit_def effects_def)
      then show ?thesis
        by (intro exI [of _ "[WMember (m_id m), WMemberType (mt_id t)]"])
           (simp add: write_order_def)
    next
      case f3: False
      show ?thesis
      proof (cases "rewardDue m t \<and> fault CreateRedeemLog")
        case True
        with u1 f1 u2 f2 f3 a b have
          "snd (commit fault s code now m t)
             = effects s code now m t [WMember (m_id m), WMemberType (mt_id t), WScanLog]"
          and "fst (commit fault s code now m t) = None"
          by (auto simp: commit_def effects_def create_scan_log_def Let_def)
        with True show ?thesis
          by (intro exI [of _ "[WMember (m_id m), WMemberType (mt_id t), WScanLog]"])
             (simp add: write_order_def)
      next
        case False
        with u1 f1 u2 f2 f3 a b have
          "snd (commit fault s code now m t) = effects s code now m t (write_order m t)"
          and "fst (commit fault s code now m t) = Some (dialogData m t)"
          by (auto simp: commit_def effects_def create_scan_log_def create_redeem_log_def
              write_order_def Let_def)
        then show ?thesis by (intro exI [of _ "write_order m t"]) simp
      qed
    qed
  qed
qed

lemma processQrScan_Found:
  assumes "lookup fault s code = Found m t"
  shows "processQrScan fault s code now =
     (case commit fault s code now m t of
        (None, s') \<Rightarrow> (None, [msg_error], s') | (Some d, s') \<Rightarrow> (Some d, [], s'))"
  using assms by (simp add: processQrScan_def finish_def)

lemma commit_cases:
  "\<exists>ws r. commit fault s code now m t = (r, effects s code now m t ws)
     \<and> prefix ws (write_order m t)
     \<and> (r = None \<longleftrightarrow> ws \<noteq> write_order m t)
     \<and> (r = None \<or> r = Some (dialogData m t))"
proof -
  obtain r s1 where c: "commit fault s code now m t = (r, s1)"
    by (cases "commit fault s code now m t")
  from commit_effects [of m t fault s code now]
  obtain ws where ws: "prefix ws (write_order m t)"
    "snd (commit fault s code now m t) = effects s code now m t ws"
    "fst (commit fault s code now m t) = None \<longleftrightarrow> ws \<noteq> write_order m t"
    "fst (commit fault s code now m t) \<noteq> None \<longrightarrow>
       fst (commit fault s code now m t) = Some (dialogData m t)"
    by (elim exE conjE)
  from ws(2) c have s1: "s1 = effects s code now m t ws" by simp
  from ws(3) c have r1: "r = None \<longleftrightarrow> ws \<noteq> write_order m t" by simp
  from ws(4) c have r2: "r = None \<or> r = Some (dialogData m t)" by (cases r) simp_all
  show ?thesis
    apply (rule exI [of _ ws])
    apply (rule exI [of _ r])
    using c s1 r1 r2 ws(1) apply simp
    done
qed

lemma accepted_scan:
  assumes "lookup fault s code = Found m t"
    and "processQrScan fault s code now = (Some d, ns, s')"
  shows "s' = effects s code now m t (write_order m t)" and "d = dialogData m t" and "ns = []"
proof -
  obtain ws r where c: "commit fault s code now m t = (r, effects s code now m t ws)"
    and w: "r = None \<longleftrightarrow> ws \<noteq> write_order m t"
    and d: "r = None \<or> r = Some (dialogData m t)"
    using commit_cases [of fault s code now m t] by (elim exE conjE)
  from assms(2) have p: "(case r of None \<Rightarrow> (None, [msg_error], effects s code now m t ws)
      | Some d \<Rightarrow> (Some d, [], effects s code now m t ws)) = (Some d, ns, s')"
    by (simp add: processQrScan_Found [OF assms(1)] c)
  then have r: "r = Some d" and n: "ns = []" and e: "s' = effects s code now m t ws"
    by (cases r; simp)+
  from r w have "ws = write_order m t" by simp
  with e show "s' = effects s code now m t (write_order m t)" by simp
  from r d show "d = dialogData m t" by simp
  from n show "ns = []" .
qed

lemma failed_scan:
  assumes "lookup fault s code = Found m t"
    and "processQrScan fault s code now = (None, ns, s')"
  shows "\<exists>ws. strict_prefix ws (write_order m t) \<and> s' = effects s code now m t ws"
    and "ns = [msg_error]"
proof -
  obtain ws r where c: "commit fault s code now m t = (r, effects s code now m t ws)"
    and pre: "prefix ws (write_order m t)"
    and w: "r = None \<longleftrightarrow> ws \<noteq> write_order m t"
    using commit_cases [of fault s code now m t] by (elim exE conjE)
  from assms(2) have p: "(case r of None \<Rightarrow> (None, [msg_error], effects s code now m t ws)
      | Some d \<Rightarrow> (Some d, [], effects s code now m t ws)) = (None, ns, s')"
    by (simp add: processQrScan_Found [OF assms(1)] c)
  then have r: "r = None" and n: "ns = [msg_error]" and e: "s' = effects s code now m t ws"
    by (cases r; simp)+
  from r w pre have "strict_prefix ws (write_order m t)" by (simp add: strict_prefix_def)
  with e show "\<exists>ws. strict_prefix ws (write_order m t) \<and> s' = effects s code now m t ws"
    by blast
  from n show "ns = [msg_error]" .
qed

text \<open>
  The same, call by call: what \<open>commit\<close> and \<open>processQrScan\<close> return for each first rejected
  write, once the member and its type have been found.
\<close>

lemma commit_by_faults:
  assumes "m_id m \<in> m_id ` set (members s)" and "mt_id t \<in> mt_id ` set (member_types s)"
  shows "commit fault s code now m t =
     (if fault UpdateMember then (None, s)
      else if fault UpdateMemberType
        then (None, effects s code now m t [WMember (m_id m)])
      else if fault CreateScanLog
        then (None, effects s code now m t [WMember (m_id m), WMemberType (mt_id t)])
      else if rewardDue m t \<and> fault CreateRedeemLog
        then (None, effects s code now m t [WMember (m_id m), WMemberType (mt_id t), WScanLog])
      else (Some (dialogData m t), effects s code now m t (write_order m t)))"
  using assms
  by (simp add: commit_def update_member_def update_member_type_def create_scan_log_def
      create_redeem_log_def effects_def write_order_def Let_def)

lemma scan_by_faults:
  assumes "lookup fault s code = Found m t"
  shows "processQrScan fault s code now =
     (if fault UpdateMember then (None, [msg_error], s)
      else if fault UpdateMemberType
        then (None, [msg_error], effects s code now m t [WMember (m_id m)])
      else if fault CreateScanLog
        then (None, [msg_error],
              effects s code now m t [WMember (m_id m), WMemberType (mt_id t)])
      else if rewardDue m t \<and> fault CreateRedeemLog
        then (None, [msg_error],
              effects s code now m t [WMember (m_id m), WMemberType (mt_id t), WScanLog])
      else (Some (dialogData m t), [], effects s code now m t (write_order m t)))"
proof -
  note l = lookup_Found [OF assms]
  from l have a: "m_id m \<in> m_id ` set (members s)" by (auto simp: matching_iff)
  from l have b: "mt_id t \<in> mt_id ` set (member_types s)" by blast
  show ?thesis
    by (simp add: processQrScan_Found [OF assms] commit_by_faults [OF a b])
qed

lemma lookup_by_faults:
  assumes "getList_members s code 1 = [m]"
    and "\<not> fault GetMembers" and "\<not> fault GetMemberType"
  shows "lookup fault s code =
     (case getOne_member_type s (member_type_id m) of
        None \<Rightarrow> NoMemberType | Some t \<Rightarrow> Found m t)"
  using assms by (simp add: lookup_def)

subsection \<open>The member and the member type after an accepted scan\<close>

lemma find_map_replace:
  assumes "k d = i"
  shows "find (\<lambda>x. k x = i) (map (\<lambda>x. if k x = i then d else x) xs)
         = (if i \<in> k ` set xs then Some d else None)"
  using assms by (induction xs) auto

lemma stored_member:
  assumes "processQrScan fault s code now = (Some d, ns, s')"
    and "lookup fault s code = Found m t"
  shows "getOne_member s' (m_id m) = Some (memberUpdateData m t now)"
    and "getOne_member_type s' (mt_id t) = Some (memberTypeUpdateData t)"
proof -
  note e = accepted_scan(1) [OF assms(2) assms(1)]
  note l = lookup_Found [OF assms(2)]
  have "m_id (memberUpdateData m t now) = m_id m" by (simp add: memberUpdateData_def)
  moreover from l have "m_id m \<in> m_id ` set (members s)" by (auto simp: matching_iff)
  ultimately show "getOne_member s' (m_id m) = Some (memberUpdateData m t now)"
    using e by (simp add: find_map_replace getOne_member_def effects_def write_order_def)
  have "mt_id (memberTypeUpdateData t) = mt_id t" by (simp add: memberTypeUpdateData_def)
  moreover from l have "mt_id t \<in> mt_id ` set (member_types s)" by blast
  ultimately show "getOne_member_type s' (mt_id t) = Some (memberTypeUpdateData t)"
    using e by (simp add: find_map_replace getOne_member_type_def effects_def write_order_def)
qed

text \<open>The example scan, evaluated.\<close>

lemma ex_lookup: "lookup no_fault ex_store ''QR-1'' = Found ex_member ex_type"
  by code_simp

lemma ex_commit:
  "commit no_fault ex_store ''QR-1'' ''T1'' ex_member ex_type = (Some ex_dialog, ex_store_scanned)"
  by code_simp

lemma ex_scan:
  "processQrScan no_fault ex_store ''QR-1'' ''T1'' = (Some ex_dialog, [], ex_store_scanned)"
  by (simp add: processQrScan_Found [OF ex_lookup] ex_commit)

text \<open>The same store, scanned again at \<open>T2\<close>.\<close>

lemma twice_commit:
  "commit no_fault ex_store_scanned ''QR-1'' ''T2'' ex_member_scanned ex_type_scanned
     = (Some ex_dialog_twice, ex_store_twice)"
  by code_simp

lemma twice_lookup:
  "lookup no_fault ex_store_scanned ''QR-1'' = Found ex_member_scanned ex_type_scanned"
  by code_simp

lemma twice_scan:
  "processQrScan no_fault ex_store_scanned ''QR-1'' ''T2''
     = (Some ex_dialog_twice, [], ex_store_twice)"
  by (simp add: processQrScan_Found [OF twice_lookup] twice_commit)

text \<open>
  Claim C1. For every successful scan of a member \<open>m\<close> whose type is \<open>t\<close>, the member the
  store holds afterwards has \<open>totalScans = m.totalScans + 1\<close>,
  \<open>pointsToReward = t.scansRequired - (m.points + 1)\<close>,
  \<open>rewardDue = (m.points + 1 \<ge> t.scansRequired)\<close> and \<open>points = 0\<close> if \<open>rewardDue\<close>, else
  \<open>m.points + 1\<close>; in particular, when \<open>m.points + 1 \<ge> t.scansRequired\<close> the stored points
  are 0, \<open>rewardDue\<close> is true and \<open>pointsToReward \<le> 0\<close>.
\<close>

theorem scan_updates_points:
  assumes "processQrScan fault s code now = (Some d, ns, s')"
    and "lookup fault s code = Found m t"
  shows "\<exists>m'. getOne_member s' (m_id m) = Some m'
     \<and> m_total_scans m' = m_total_scans m + 1
     \<and> points_to_reward m' = scans_required t - (points m + 1)
     \<and> reward_due m' = (points m + 1 \<ge> scans_required t)
     \<and> points m' = (if reward_due m' then 0 else points m + 1)
     \<and> (points m + 1 \<ge> scans_required t \<longrightarrow>
          points m' = 0 \<and> reward_due m' \<and> points_to_reward m' \<le> 0)"
  using stored_member(1) [OF assms]
  by (simp add: memberUpdateData_def rewardDue_def newPointsToReward_def newMemberPoints_def)

text \<open>The scenario of section 8: two points, three scans required, one scan.\<close>

theorem scan_updates_points_witness:
  "processQrScan no_fault ex_store ''QR-1'' ''T1'' = (Some ex_dialog, [], ex_store_scanned)
   \<and> lookup no_fault ex_store ''QR-1'' = Found ex_member ex_type
   \<and> points ex_member + 1 \<ge> scans_required ex_type
   \<and> (\<exists>m'. getOne_member ex_store_scanned (m_id ex_member) = Some m'
         \<and> m_total_scans m' = m_total_scans ex_member + 1
         \<and> points m' = 0 \<and> reward_due m' \<and> points_to_reward m' \<le> 0)"
proof -
  have v: "points ex_member + 1 \<ge> scans_required ex_type"
    by (simp add: ex_member_def ex_type_def)
  from scan_updates_points [OF ex_scan ex_lookup] v
  have "\<exists>m'. getOne_member ex_store_scanned (m_id ex_member) = Some m'
         \<and> m_total_scans m' = m_total_scans ex_member + 1
         \<and> points m' = 0 \<and> reward_due m' \<and> points_to_reward m' \<le> 0"
    by blast
  with ex_scan ex_lookup v show ?thesis by blast
qed

text \<open>
  Claim C3. After a successful scan, \<open>rewardEarnedAt\<close> is the time of the scan when the scan
  crosses the threshold (\<open>rewardDue\<close>) and the member had no earlier \<open>rewardEarnedAt\<close> (the
  value was \<open>null\<close>, missing or empty, which is what \<open>!member.reward_earned_at\<close> tests); in
  every other case, \<open>rewardDue\<close> false or an earlier value present, the scan leaves the
  member's \<open>rewardEarnedAt\<close> as it was.
\<close>

theorem reward_earned_at_first_only:
  assumes "processQrScan fault s code now = (Some d, ns, s')"
    and "lookup fault s code = Found m t"
  shows "\<exists>m'. getOne_member s' (m_id m) = Some m'
     \<and> (rewardDue m t \<and> falsy (reward_earned_at m) \<longrightarrow> reward_earned_at m' = Some now)
     \<and> (\<not> rewardDue m t \<or> \<not> falsy (reward_earned_at m) \<longrightarrow>
          reward_earned_at m' = reward_earned_at m)"
  using stored_member(1) [OF assms]
  by (simp add: memberUpdateData_def)

text \<open>
  The example member had no \<open>rewardEarnedAt\<close> and earns the reward at \<open>T1\<close>; the scan at
  \<open>T2\<close> earns nothing and keeps the value.
\<close>

theorem reward_earned_at_first_only_witness:
  "processQrScan no_fault ex_store ''QR-1'' ''T1'' = (Some ex_dialog, [], ex_store_scanned)
   \<and> lookup no_fault ex_store ''QR-1'' = Found ex_member ex_type
   \<and> rewardDue ex_member ex_type \<and> falsy (reward_earned_at ex_member)
   \<and> (\<exists>m'. getOne_member ex_store_scanned (m_id ex_member) = Some m'
         \<and> reward_earned_at m' = Some ''T1'')
   \<and> processQrScan no_fault ex_store_scanned ''QR-1'' ''T2''
       = (Some ex_dialog_twice, [], ex_store_twice)
   \<and> lookup no_fault ex_store_scanned ''QR-1'' = Found ex_member_scanned ex_type_scanned
   \<and> \<not> rewardDue ex_member_scanned ex_type_scanned
   \<and> reward_earned_at ex_member_scanned = Some ''T1''
   \<and> (\<exists>m'. getOne_member ex_store_twice (m_id ex_member_scanned) = Some m'
         \<and> reward_earned_at m' = Some ''T1'')"
proof -
  have v: "rewardDue ex_member ex_type \<and> falsy (reward_earned_at ex_member)"
    by code_simp
  from reward_earned_at_first_only [OF ex_scan ex_lookup] v
  have first: "\<exists>m'. getOne_member ex_store_scanned (m_id ex_member) = Some m'
         \<and> reward_earned_at m' = Some ''T1''"
    by blast
  have w: "\<not> rewardDue ex_member_scanned ex_type_scanned" by code_simp
  have p: "reward_earned_at ex_member_scanned = Some ''T1''" by code_simp
  from reward_earned_at_first_only [OF twice_scan twice_lookup] w
  have "\<exists>m'. getOne_member ex_store_twice (m_id ex_member_scanned) = Some m'
         \<and> reward_earned_at m' = reward_earned_at ex_member_scanned"
    by blast
  with p have second: "\<exists>m'. getOne_member ex_store_twice (m_id ex_member_scanned) = Some m'
         \<and> reward_earned_at m' = Some ''T1''"
    by simp
  from ex_scan ex_lookup v first twice_scan twice_lookup w p second show ?thesis by blast
qed

text \<open>
  Claim C10. A successful scan writes the member back with its \<open>id\<close>, \<open>qr_code\<close>, \<open>name\<close>,
  \<open>member_type_id\<close> and every field the code does not name (the extension of the record)
  as they were read, and the member type with everything but \<open>total_scans\<close>, which grows by
  one, as it was read: only \<open>total_scans\<close>, \<open>points\<close>, \<open>points_to_reward\<close>, \<open>reward_due\<close>,
  \<open>reward_earned_at\<close> and \<open>last_scan_at\<close> of the member can differ.
\<close>

theorem scan_frame:
  assumes "processQrScan fault s code now = (Some d, ns, s')"
    and "lookup fault s code = Found m t"
  shows "\<exists>m' t'. getOne_member s' (m_id m) = Some m'
     \<and> getOne_member_type s' (mt_id t) = Some t'
     \<and> m_id m' = m_id m \<and> qr_code m' = qr_code m \<and> m_name m' = m_name m
     \<and> member_type_id m' = member_type_id m \<and> member.more m' = member.more m
     \<and> mt_id t' = mt_id t \<and> mt_name t' = mt_name t \<and> scans_required t' = scans_required t
     \<and> reward_type_id t' = reward_type_id t \<and> member_type.more t' = member_type.more t
     \<and> mt_total_scans t' = mt_total_scans t + 1"
  using stored_member [OF assms]
  by (simp add: memberUpdateData_def memberTypeUpdateData_def)

text \<open>The example scan keeps the member's code and name and the type's name and threshold.\<close>

theorem scan_frame_witness:
  "processQrScan no_fault ex_store ''QR-1'' ''T1'' = (Some ex_dialog, [], ex_store_scanned)
   \<and> lookup no_fault ex_store ''QR-1'' = Found ex_member ex_type
   \<and> (\<exists>m' t'. getOne_member ex_store_scanned (m_id ex_member) = Some m'
         \<and> getOne_member_type ex_store_scanned (mt_id ex_type) = Some t'
         \<and> qr_code m' = qr_code ex_member \<and> m_name m' = m_name ex_member
         \<and> mt_name t' = mt_name ex_type \<and> scans_required t' = scans_required ex_type)"
proof -
  from scan_frame [OF ex_scan ex_lookup]
  have "\<exists>m' t'. getOne_member ex_store_scanned (m_id ex_member) = Some m'
         \<and> getOne_member_type ex_store_scanned (mt_id ex_type) = Some t'
         \<and> qr_code m' = qr_code ex_member \<and> m_name m' = m_name ex_member
         \<and> mt_name t' = mt_name ex_type \<and> scans_required t' = scans_required ex_type"
    by blast
  with ex_scan ex_lookup show ?thesis by blast
qed

text \<open>
  Claim C5. Within one call that has found its member and member type, the writes reach the
  store in the fixed order member update, member-type update, scan log, redeem log: what the
  call adds to the journal is a prefix of that order, whichever call the store rejects. When
  the scan is accepted it is the whole order: the scan log is written whatever the reward
  outcome, and the redeem log is written if and only if \<open>rewardDue\<close> holds.
\<close>

theorem writes_in_fixed_order:
  assumes "lookup fault s code = Found m t"
    and "processQrScan fault s code now = (r, ns, s')"
  shows "\<exists>ws. journal s' = journal s @ ws \<and> prefix ws (write_order m t)
     \<and> (r \<noteq> None \<longrightarrow> ws = write_order m t \<and> WScanLog \<in> set ws
          \<and> (WRedeemLog \<in> set ws \<longleftrightarrow> rewardDue m t))"
proof (cases r)
  case None
  with failed_scan(1) [OF assms(1), of now ns s'] assms(2)
  show ?thesis by (auto simp: effects_def strict_prefix_def)
next
  case (Some d)
  with accepted_scan(1) [OF assms(1), of now d ns s'] assms(2)
  have "journal s' = journal s @ write_order m t" by (simp add: effects_def)
  with Some show ?thesis by (simp add: write_order_def)
qed

text \<open>The example scan earns a reward and issues all four writes.\<close>

theorem writes_in_fixed_order_witness:
  "lookup no_fault ex_store ''QR-1'' = Found ex_member ex_type
   \<and> processQrScan no_fault ex_store ''QR-1'' ''T1'' = (Some ex_dialog, [], ex_store_scanned)
   \<and> journal ex_store_scanned = journal ex_store @ write_order ex_member ex_type
   \<and> write_order ex_member ex_type = [WMember 1, WMemberType 1, WScanLog, WRedeemLog]"
proof -
  have w: "write_order ex_member ex_type = [WMember 1, WMemberType 1, WScanLog, WRedeemLog]"
    by code_simp
  from writes_in_fixed_order [OF ex_lookup ex_scan]
  have "journal ex_store_scanned = journal ex_store @ write_order ex_member ex_type"
    by auto
  with ex_scan ex_lookup w show ?thesis by blast
qed

subsection \<open>Resolving the code to a member\<close>

text \<open>A scan of a code that two members carry, evaluated.\<close>

lemma dup_lookup: "lookup no_fault dup_store ''QR-1'' = Found ex_member ex_type"
  by code_simp

lemma dup_commit:
  "commit no_fault dup_store ''QR-1'' ''T1'' ex_member ex_type = (Some ex_dialog, dup_store_scanned)"
  by code_simp

lemma dup_scan:
  "processQrScan no_fault dup_store ''QR-1'' ''T1'' = (Some ex_dialog, [], dup_store_scanned)"
  by (simp add: processQrScan_Found [OF dup_lookup] dup_commit)

text \<open>
  Claim C4 as stated fails: two members carry the code \<open>QR-1\<close>, and the scan is accepted and
  issues all four writes. The read asks for one record per page and the code takes
  \<open>members[0]\<close>; it never sees a second match.
\<close>

theorem ambiguous_code_is_processed:
  "length (matching dup_store ''QR-1'') = 2
   \<and> processQrScan no_fault dup_store ''QR-1'' ''T1'' = (Some ex_dialog, [], dup_store_scanned)
   \<and> journal dup_store = []
   \<and> journal dup_store_scanned = [WMember 1, WMemberType 1, WScanLog, WRedeemLog]"
proof -
  have "length (matching dup_store ''QR-1'') = 2" by code_simp
  moreover have "journal dup_store = []" by code_simp
  moreover have "journal dup_store_scanned = [WMember 1, WMemberType 1, WScanLog, WRedeemLog]"
    by code_simp
  ultimately show ?thesis using dup_scan by blast
qed

text \<open>
  Claim C4, amended. A scan writes to the store only when at least one member carries the
  scanned code: with no such member the store is left as it was and the call returns
  \<open>null\<close>, with the notification that no member was found when the read itself went
  through. With one or more such members there is no check for ambiguity: the scan goes on
  with one of them, a member \<open>m\<close> of least \<open>id\<close>. When the two reads go through and the type of
  \<open>m\<close> is in the store, the lookup finds \<open>m\<close> and that type, the member update of \<open>m\<close> reaches
  the store unless it is rejected, and when no write is rejected the scan is accepted with
  all its writes made for \<open>m\<close>.
\<close>

theorem scan_writes_need_a_match:
  "(matching s code = [] \<longrightarrow>
      store_of (processQrScan fault s code now) = s
      \<and> result_of (processQrScan fault s code now) = None
      \<and> (\<not> fault GetMembers \<longrightarrow> notes_of (processQrScan fault s code now) = [msg_no_member]))
   \<and> (store_of (processQrScan fault s code now) \<noteq> s \<longrightarrow> matching s code \<noteq> [])
   \<and> (matching s code \<noteq> [] \<longrightarrow>
        (\<exists>m. m \<in> set (matching s code)
             \<and> (\<forall>x\<in>set (matching s code). m_id m \<le> m_id x)
             \<and> (\<forall>t. \<not> fault GetMembers \<and> \<not> fault GetMemberType
                      \<and> getOne_member_type s (member_type_id m) = Some t \<longrightarrow>
                    lookup fault s code = Found m t
                    \<and> (\<not> fault UpdateMember \<longrightarrow>
                          WMember (m_id m)
                            \<in> set (journal (store_of (processQrScan fault s code now))))
                    \<and> (\<not> fault UpdateMember \<and> \<not> fault UpdateMemberType
                         \<and> \<not> fault CreateScanLog \<and> \<not> fault CreateRedeemLog \<longrightarrow>
                          processQrScan fault s code now
                            = (Some (dialogData m t), [],
                               effects s code now m t (write_order m t))))))"
proof -
  have a: "store_of (processQrScan fault s code now) = s
      \<and> result_of (processQrScan fault s code now) = None
      \<and> (\<not> fault GetMembers \<longrightarrow> notes_of (processQrScan fault s code now) = [msg_no_member])"
    if "matching s code = []"
    using lookup_no_match [OF that, of fault]
    by (simp add: processQrScan_def finish_def store_of_def result_of_def notes_of_def)
  have c: "\<exists>m. m \<in> set (matching s code)
             \<and> (\<forall>x\<in>set (matching s code). m_id m \<le> m_id x)
             \<and> (\<forall>t. \<not> fault GetMembers \<and> \<not> fault GetMemberType
                      \<and> getOne_member_type s (member_type_id m) = Some t \<longrightarrow>
                    lookup fault s code = Found m t
                    \<and> (\<not> fault UpdateMember \<longrightarrow>
                          WMember (m_id m)
                            \<in> set (journal (store_of (processQrScan fault s code now))))
                    \<and> (\<not> fault UpdateMember \<and> \<not> fault UpdateMemberType
                         \<and> \<not> fault CreateScanLog \<and> \<not> fault CreateRedeemLog \<longrightarrow>
                          processQrScan fault s code now
                            = (Some (dialogData m t), [],
                               effects s code now m t (write_order m t))))"
    if "matching s code \<noteq> []"
  proof -
    from that getList_members_Nil [of s code] obtain m rest
      where g: "getList_members s code 1 = m # rest"
      by (cases "getList_members s code 1") auto
    note o = getList_members_one [OF g]
    from o g have g1: "getList_members s code 1 = [m]" by simp
    have "lookup fault s code = Found m t
          \<and> (\<not> fault UpdateMember \<longrightarrow>
                WMember (m_id m) \<in> set (journal (store_of (processQrScan fault s code now))))
          \<and> (\<not> fault UpdateMember \<and> \<not> fault UpdateMemberType
               \<and> \<not> fault CreateScanLog \<and> \<not> fault CreateRedeemLog \<longrightarrow>
                processQrScan fault s code now
                  = (Some (dialogData m t), [], effects s code now m t (write_order m t)))"
      if h: "\<not> fault GetMembers" "\<not> fault GetMemberType"
        "getOne_member_type s (member_type_id m) = Some t" for t
    proof -
      from lookup_by_faults [OF g1 h(1) h(2)] h(3) have l: "lookup fault s code = Found m t"
        by simp
      show ?thesis
        using l by (simp add: scan_by_faults [OF l] store_of_def effects_def write_order_def)
    qed
    with o show ?thesis by blast
  qed
  from a c show ?thesis by blast
qed

text \<open>
  No member carries \<open>QR-9\<close>. Two carry \<open>QR-1\<close>, and the scan is that of the first of them.
\<close>

theorem scan_writes_need_a_match_witness:
  "matching dup_store ''QR-9'' = []
   \<and> store_of (processQrScan no_fault dup_store ''QR-9'' ''T1'') = dup_store
   \<and> result_of (processQrScan no_fault dup_store ''QR-9'' ''T1'') = None
   \<and> notes_of (processQrScan no_fault dup_store ''QR-9'' ''T1'') = [msg_no_member]
   \<and> matching dup_store ''QR-1'' = [ex_member, ex_twin]
   \<and> m_id ex_member < m_id ex_twin
   \<and> getOne_member_type dup_store (member_type_id ex_member) = Some ex_type
   \<and> lookup no_fault dup_store ''QR-1'' = Found ex_member ex_type
   \<and> processQrScan no_fault dup_store ''QR-1'' ''T1''
       = (Some (dialogData ex_member ex_type), [],
          effects dup_store ''QR-1'' ''T1'' ex_member ex_type (write_order ex_member ex_type))"
proof -
  have e: "matching dup_store ''QR-9'' = []" by code_simp
  have n: "\<not> no_fault c" for c by (simp add: no_fault_def)
  have m: "matching dup_store ''QR-1'' = [ex_member, ex_twin]" by code_simp
  have i: "m_id ex_member < m_id ex_twin" by code_simp
  have ty: "getOne_member_type dup_store (member_type_id ex_member) = Some ex_type"
    by code_simp
  note t = scan_writes_need_a_match [of dup_store _ no_fault "''T1''"]
  from t [of "''QR-9''"] e n
  have first: "store_of (processQrScan no_fault dup_store ''QR-9'' ''T1'') = dup_store
   \<and> result_of (processQrScan no_fault dup_store ''QR-9'' ''T1'') = None
   \<and> notes_of (processQrScan no_fault dup_store ''QR-9'' ''T1'') = [msg_no_member]"
    by blast
  from t [of "''QR-1''"] m obtain m0 where m0: "m0 \<in> set [ex_member, ex_twin]"
    "\<forall>x\<in>set [ex_member, ex_twin]. m_id m0 \<le> m_id x"
    "\<forall>t. \<not> no_fault GetMembers \<and> \<not> no_fault GetMemberType
          \<and> getOne_member_type dup_store (member_type_id m0) = Some t \<longrightarrow>
        lookup no_fault dup_store ''QR-1'' = Found m0 t
        \<and> (\<not> no_fault UpdateMember \<and> \<not> no_fault UpdateMemberType
             \<and> \<not> no_fault CreateScanLog \<and> \<not> no_fault CreateRedeemLog \<longrightarrow>
              processQrScan no_fault dup_store ''QR-1'' ''T1''
                = (Some (dialogData m0 t), [],
                   effects dup_store ''QR-1'' ''T1'' m0 t (write_order m0 t)))"
    by auto
  from m0(1,2) i have "m0 = ex_member" by auto
  with m0(3) ty n
  have second: "lookup no_fault dup_store ''QR-1'' = Found ex_member ex_type
     \<and> processQrScan no_fault dup_store ''QR-1'' ''T1''
       = (Some (dialogData ex_member ex_type), [],
          effects dup_store ''QR-1'' ''T1'' ex_member ex_type (write_order ex_member ex_type))"
    by blast
  from e first m i ty second show ?thesis by blast
qed

subsection \<open>A write that is rejected\<close>

text \<open>
  Claim C6, amended. Once the member and its type have been found: if a write of the commit
  sequence is rejected, the scan returns \<open>null\<close> and raises the one generic error
  notification, which does not name the writes that succeeded; the store keeps the effects
  of exactly the writes issued before the rejected one, each made once (nothing is rolled
  back, nothing is issued again), and no later write is issued. The scan returns \<open>null\<close>
  exactly when one of its writes is rejected.
\<close>

theorem failed_commit_report:
  assumes "lookup fault s code = Found m t"
  shows "(fault UpdateMember \<longrightarrow>
            processQrScan fault s code now = (None, [msg_error], s))
     \<and> (\<not> fault UpdateMember \<and> fault UpdateMemberType \<longrightarrow>
            processQrScan fault s code now
              = (None, [msg_error], effects s code now m t [WMember (m_id m)]))
     \<and> (\<not> fault UpdateMember \<and> \<not> fault UpdateMemberType \<and> fault CreateScanLog \<longrightarrow>
            processQrScan fault s code now
              = (None, [msg_error],
                 effects s code now m t [WMember (m_id m), WMemberType (mt_id t)]))
     \<and> (\<not> fault UpdateMember \<and> \<not> fault UpdateMemberType \<and> \<not> fault CreateScanLog
          \<and> rewardDue m t \<and> fault CreateRedeemLog \<longrightarrow>
            processQrScan fault s code now
              = (None, [msg_error],
                 effects s code now m t [WMember (m_id m), WMemberType (mt_id t), WScanLog]))
     \<and> (result_of (processQrScan fault s code now) = None \<longleftrightarrow>
            fault UpdateMember \<or> fault UpdateMemberType \<or> fault CreateScanLog
            \<or> (rewardDue m t \<and> fault CreateRedeemLog))"
  by (simp add: scan_by_faults [OF assms] result_of_def)

text \<open>The example scan with the scan-log call rejected, and with the first read rejected.\<close>

lemma partial_lookup: "lookup (fail_at CreateScanLog) ex_store ''QR-1'' = Found ex_member ex_type"
  by code_simp

lemma partial_commit:
  "commit (fail_at CreateScanLog) ex_store ''QR-1'' ''T1'' ex_member ex_type
     = (None, ex_store_partial)"
  by code_simp

lemma partial_scan:
  "processQrScan (fail_at CreateScanLog) ex_store ''QR-1'' ''T1''
     = (None, [msg_error], ex_store_partial)"
  by (simp add: processQrScan_Found [OF partial_lookup] partial_commit)

lemma partial_effects:
  "effects ex_store ''QR-1'' ''T1'' ex_member ex_type
     [WMember (m_id ex_member), WMemberType (mt_id ex_type)] = ex_store_partial"
  by code_simp

text \<open>The scan-log call is rejected after the two updates went through.\<close>

theorem failed_commit_report_witness:
  "lookup (fail_at CreateScanLog) ex_store ''QR-1'' = Found ex_member ex_type
   \<and> \<not> fail_at CreateScanLog UpdateMember \<and> \<not> fail_at CreateScanLog UpdateMemberType
   \<and> fail_at CreateScanLog CreateScanLog
   \<and> processQrScan (fail_at CreateScanLog) ex_store ''QR-1'' ''T1''
       = (None, [msg_error], ex_store_partial)
   \<and> journal ex_store_partial = journal ex_store @ [WMember 1, WMemberType 1]"
proof -
  have f: "\<not> fail_at CreateScanLog UpdateMember \<and> \<not> fail_at CreateScanLog UpdateMemberType
      \<and> fail_at CreateScanLog CreateScanLog"
    by (simp add: fail_at_def)
  from failed_commit_report [OF partial_lookup, of "''T1''"] f
  have "processQrScan (fail_at CreateScanLog) ex_store ''QR-1'' ''T1''
      = (None, [msg_error],
         effects ex_store ''QR-1'' ''T1'' ex_member ex_type
           [WMember (m_id ex_member), WMemberType (mt_id ex_type)])"
    by blast
  then have p: "processQrScan (fail_at CreateScanLog) ex_store ''QR-1'' ''T1''
      = (None, [msg_error], ex_store_partial)"
    by (simp only: partial_effects)
  have j: "journal ex_store_partial = journal ex_store @ [WMember 1, WMemberType 1]"
    by code_simp
  from partial_lookup f p j show ?thesis by blast
qed

lemma read_failure_scan:
  "processQrScan (fail_at GetMembers) ex_store ''QR-1'' ''T1'' = (None, [msg_error], ex_store)"
  by (simp add: processQrScan_def lookup_def finish_def fail_at_def)

text \<open>
  Claim C6 as stated fails: the report does not name the writes that succeeded. A scan whose
  third write is rejected, after two writes went through, and a scan whose first read is
  rejected, before any write, return the same value and raise the same notification.
\<close>

theorem failure_report_names_no_writes:
  "processQrScan (fail_at CreateScanLog) ex_store ''QR-1'' ''T1''
     = (None, [msg_error], ex_store_partial)
   \<and> processQrScan (fail_at GetMembers) ex_store ''QR-1'' ''T1'' = (None, [msg_error], ex_store)
   \<and> journal ex_store = []
   \<and> journal ex_store_partial = [WMember 1, WMemberType 1]"
proof -
  have "journal ex_store = []" by code_simp
  moreover have "journal ex_store_partial = [WMember 1, WMemberType 1]" by code_simp
  ultimately show ?thesis using partial_scan read_failure_scan by blast
qed

subsection \<open>Two scans of the same code\<close>

text \<open>The two schedules on the example store, evaluated.\<close>

lemma raced_commit:
  "commit no_fault ex_store_scanned ''QR-1'' ''T2'' ex_member ex_type
     = (Some ex_dialog, ex_store_raced)"
  by code_simp

lemma rejected_commit:
  "commit (fail_at UpdateMember) ex_store_scanned ''QR-1'' ''T2'' ex_member ex_type
     = (None, ex_store_scanned)"
  by code_simp

lemma rejected_lookup:
  "lookup (fail_at UpdateMember) ex_store ''QR-1'' = Found ex_member ex_type"
  by code_simp

lemma finish_Found:
  "finish fault s code now (Found m t) =
     (case commit fault s code now m t of
        (None, s') \<Rightarrow> (None, [msg_error], s') | (Some d, s') \<Rightarrow> (Some d, [], s'))"
  by (simp add: finish_def)

lemma ex_interleaved:
  "interleaved no_fault no_fault ex_store ''QR-1'' ''T1'' ''T2''
     = (Some ex_dialog, Some ex_dialog, ex_store_raced)"
  by (simp add: interleaved_def ex_lookup finish_Found ex_commit raced_commit)

lemma ex_interleaved_rejected:
  "interleaved no_fault (fail_at UpdateMember) ex_store ''QR-1'' ''T1'' ''T2''
     = (Some ex_dialog, None, ex_store_scanned)"
  by (simp add: interleaved_def ex_lookup rejected_lookup finish_Found ex_commit rejected_commit)

text \<open>
  Claim C2 as stated fails. The member has \<open>points = scansRequired - 1\<close> and seven scans.
  When both calls read before either writes, each computes from the same member: both are
  accepted, the member ends with eight scans, not nine, and two redeem logs are written. If
  the store rejects the second, stale member update instead, the second call fails and the
  member still ends with eight scans.
\<close>

theorem concurrent_scans_share_a_snapshot:
  "points ex_member = scans_required ex_type - 1
   \<and> m_total_scans ex_member = 7
   \<and> interleaved no_fault no_fault ex_store ''QR-1'' ''T1'' ''T2''
       = (Some ex_dialog, Some ex_dialog, ex_store_raced)
   \<and> map m_total_scans (members ex_store_raced) = [8]
   \<and> length (redeem_logs ex_store_raced) = 2
   \<and> interleaved no_fault (fail_at UpdateMember) ex_store ''QR-1'' ''T1'' ''T2''
       = (Some ex_dialog, None, ex_store_scanned)
   \<and> map m_total_scans (members ex_store_scanned) = [8]"
proof -
  have "points ex_member = scans_required ex_type - 1" by code_simp
  moreover have "m_total_scans ex_member = 7" by code_simp
  moreover have "map m_total_scans (members ex_store_raced) = [8]" by code_simp
  moreover have "length (redeem_logs ex_store_raced) = 2" by code_simp
  moreover have "map m_total_scans (members ex_store_scanned) = [8]" by code_simp
  ultimately show ?thesis using ex_interleaved ex_interleaved_rejected by blast
qed

text \<open>The second of two calls in a row finds what the first has written.\<close>

lemma processQrScan_Some:
  assumes "processQrScan fault s code now = (Some d, ns, s')"
  shows "\<exists>m t. lookup fault s code = Found m t"
  using assms unfolding processQrScan_def finish_def
  by (cases "lookup fault s code") simp_all

lemma second_lookup:
  assumes l: "lookup fA s code = Found m t"
    and a: "processQrScan fA s code nowA = (Some dA, nA, s1)"
    and l2: "lookup fB s1 code = Found m1 t1"
  shows "m1 = memberUpdateData m t nowA" and "t1 = memberTypeUpdateData t"
proof -
  let ?m' = "memberUpdateData m t nowA"
  note lf = lookup_Found [OF l]
  note lf2 = lookup_Found [OF l2]
  note e = accepted_scan(1) [OF l a]
  have ms: "members s1 = map (\<lambda>x. if m_id x = m_id m then ?m' else x) (members s)"
    using e by (simp add: effects_def write_order_def)
  have ts: "member_types s1
      = map (\<lambda>x. if mt_id x = mt_id t then memberTypeUpdateData t else x) (member_types s)"
    using e by (simp add: effects_def write_order_def)
  have q: "qr_code ?m' = code" "m_id ?m' = m_id m" "member_type_id ?m' = member_type_id m"
    using lf by (simp_all add: memberUpdateData_def matching_iff)
  have min: "?m' \<in> set (matching s1 code)"
    using lf ms q by (force simp: matching_iff)
  with lf2 have le: "m_id m1 \<le> m_id m" using q by force
  from lf2 have m1: "m1 \<in> set (members s1)" "qr_code m1 = code" by (simp_all add: matching_iff)
  show m1eq: "m1 = ?m'"
  proof (rule ccontr)
    assume ne: "m1 \<noteq> ?m'"
    with m1(1) ms have old: "m1 \<in> set (members s)" "m_id m1 \<noteq> m_id m"
      by (auto split: if_splits)
    with m1(2) have "m1 \<in> set (matching s code)" by (simp add: matching_iff)
    with lf have "m_id m \<le> m_id m1" by blast
    with le old(2) show False by simp
  qed
  have "mt_id (memberTypeUpdateData t) = mt_id t" by (simp add: memberTypeUpdateData_def)
  moreover from lf have "mt_id t \<in> mt_id ` set (member_types s)" by blast
  ultimately have "getOne_member_type s1 (mt_id t) = Some (memberTypeUpdateData t)"
    using ts by (simp add: find_map_replace getOne_member_type_def)
  moreover from lf2 m1eq q lf have "getOne_member_type s1 (mt_id t) = Some t1" by simp
  ultimately show "t1 = memberTypeUpdateData t" by simp
qed

text \<open>
  Claim C2, amended. Two accepted scans of the same code, the second started after the first
  has returned, of a member with \<open>points = scansRequired - 1\<close> whose type requires at least
  two scans: together they add exactly one redeem log, and the member's \<open>totalScans\<close> grows
  by exactly 2.
\<close>

theorem two_scans_one_after_the_other:
  assumes "lookup fA s code = Found m t"
    and "points m = scans_required t - 1"
    and "2 \<le> scans_required t"
    and "sequential fA fB s code nowA nowB = (Some dA, Some dB, s2)"
  shows "\<exists>m'. getOne_member s2 (m_id m) = Some m'
     \<and> m_total_scans m' = m_total_scans m + 2
     \<and> redeem_logs s2
         = redeem_logs s @ [\<lparr>rl_member_id = m_id m, rl_reward_type_id = reward_type_id t\<rparr>]"
proof -
  let ?m' = "memberUpdateData m t nowA"
  let ?t' = "memberTypeUpdateData t"
  from assms(4) obtain nA s1 nB where a: "processQrScan fA s code nowA = (Some dA, nA, s1)"
    and b: "processQrScan fB s1 code nowB = (Some dB, nB, s2)"
    by (auto simp: sequential_def split: prod.splits)
  from processQrScan_Some [OF b] obtain m1 t1 where l2: "lookup fB s1 code = Found m1 t1"
    by blast
  from second_lookup [OF assms(1) a l2] l2 have l2': "lookup fB s1 code = Found ?m' ?t'"
    by simp
  note e1 = accepted_scan(1) [OF assms(1) a]
  note e2 = accepted_scan(1) [OF l2' b]
  have r1: "rewardDue m t"
    using assms(2) by (simp add: rewardDue_def newPointsToReward_def newMemberPoints_def)
  have r2: "\<not> rewardDue ?m' ?t'"
    using assms(3) r1
    by (simp add: rewardDue_def newPointsToReward_def newMemberPoints_def memberUpdateData_def
        memberTypeUpdateData_def)
  have logs: "redeem_logs s2
      = redeem_logs s @ [\<lparr>rl_member_id = m_id m, rl_reward_type_id = reward_type_id t\<rparr>]"
    using e1 e2 r1 r2 by (simp add: effects_def write_order_def)
  have "getOne_member s2 (m_id ?m') = Some (memberUpdateData ?m' ?t' nowB)"
    by (rule stored_member(1) [OF b l2'])
  moreover have "m_id ?m' = m_id m" by (simp add: memberUpdateData_def)
  moreover have "m_total_scans (memberUpdateData ?m' ?t' nowB) = m_total_scans m + 2"
    by (simp add: memberUpdateData_def)
  ultimately show ?thesis using logs by simp
qed

text \<open>The example store, scanned at \<open>T1\<close> and again at \<open>T2\<close>.\<close>

lemma ex_sequential:
  "sequential no_fault no_fault ex_store ''QR-1'' ''T1'' ''T2''
     = (Some ex_dialog, Some ex_dialog_twice, ex_store_twice)"
  by (simp add: sequential_def ex_scan twice_scan)

text \<open>Two points, three required: the first scan earns the reward, the second starts anew.\<close>

theorem two_scans_one_after_the_other_witness:
  "lookup no_fault ex_store ''QR-1'' = Found ex_member ex_type
   \<and> points ex_member = scans_required ex_type - 1
   \<and> 2 \<le> scans_required ex_type
   \<and> sequential no_fault no_fault ex_store ''QR-1'' ''T1'' ''T2''
       = (Some ex_dialog, Some ex_dialog_twice, ex_store_twice)
   \<and> (\<exists>m'. getOne_member ex_store_twice (m_id ex_member) = Some m'
         \<and> m_total_scans m' = m_total_scans ex_member + 2
         \<and> redeem_logs ex_store_twice = redeem_logs ex_store
              @ [\<lparr>rl_member_id = m_id ex_member, rl_reward_type_id = reward_type_id ex_type\<rparr>])"
proof -
  have p: "points ex_member = scans_required ex_type - 1" by code_simp
  have q: "2 \<le> scans_required ex_type" by code_simp
  from two_scans_one_after_the_other [OF ex_lookup p q ex_sequential]
    ex_lookup p q ex_sequential
  show ?thesis by blast
qed

text \<open>
  The bound on \<open>scansRequired\<close> is needed: a type that requires one scan rewards every scan,
  so two scans in a row write two redeem logs.
\<close>

lemma single_first:
  "lookup no_fault single_store ''QR-1'' = Found ex_member_single ex_type_single"
  by code_simp

lemma every_scan_rewarded:
  "points ex_member_single = scans_required ex_type_single - 1
   \<and> length (redeem_logs (snd (snd (sequential no_fault no_fault single_store
                                      ''QR-1'' ''T1'' ''T2'')))) = 2"
proof -
  let ?s1 = "snd (commit no_fault single_store ''QR-1'' ''T1'' ex_member_single ex_type_single)"
  let ?m1 = "memberUpdateData ex_member_single ex_type_single ''T1''"
  let ?t1 = "memberTypeUpdateData ex_type_single"
  have c1: "fst (commit no_fault single_store ''QR-1'' ''T1'' ex_member_single ex_type_single)
      = Some (dialogData ex_member_single ex_type_single)" by code_simp
  have l2: "lookup no_fault ?s1 ''QR-1'' = Found ?m1 ?t1" by code_simp
  have c2: "fst (commit no_fault ?s1 ''QR-1'' ''T2'' ?m1 ?t1) = Some (dialogData ?m1 ?t1)"
    by code_simp
  have n: "length (redeem_logs (snd (commit no_fault ?s1 ''QR-1'' ''T2'' ?m1 ?t1))) = 2"
    by code_simp
  have p: "points ex_member_single = scans_required ex_type_single - 1" by code_simp
  have a: "processQrScan no_fault single_store ''QR-1'' ''T1''
      = (Some (dialogData ex_member_single ex_type_single), [], ?s1)"
    using c1 by (auto simp: processQrScan_Found [OF single_first] split: prod.splits)
  have b: "processQrScan no_fault ?s1 ''QR-1'' ''T2''
      = (Some (dialogData ?m1 ?t1), [], snd (commit no_fault ?s1 ''QR-1'' ''T2'' ?m1 ?t1))"
    using c2 by (auto simp: processQrScan_Found [OF l2] split: prod.splits)
  from a b n p show ?thesis by (simp add: sequential_def)
qed

text \<open>
  What \<open>handleScan\<close> adds around the call: a scan that arrives while the scanner is paused is
  dropped without touching the store, and an accepted scan leaves the scanner paused, so that
  the next event the component handles is dropped.
\<close>

lemma handleScan_paused:
  "scanningPaused ui \<Longrightarrow> handleScan fault ui s data now = (ui, [], s)"
  by (simp add: handleScan_def)

lemma handleScan_accepted:
  assumes "\<not> scanningPaused ui"
    and "processQrScan fault s code now = (Some d, ns, s')"
  shows "\<exists>ui'. handleScan fault ui s (Some (code # others)) now = (ui', ns @ [msg_visit_logged], s')
     \<and> scanningPaused ui' \<and> openDialog ui' \<and> dialogContent ui' = Some d
     \<and> handleScan fault' ui' s' data' now' = (ui', [], s')"
  using assms by (simp add: handleScan_def)

section \<open>Reconciliation: what one run does\<close>

text \<open>
  In this section \<open>toLowerCase\<close> is any function on strings, unless a statement names
  \<open>ascii_lower\<close>.
\<close>

subsection \<open>The filter and the loop\<close>

lemma create_all_never:
  "(\<forall>j. \<not> rejects j) \<Longrightarrow> create_all rejects i ms store = store @ ms"
  by (induction ms arbitrary: i store) simp_all

lemma create_all_shape:
  "\<exists>cs. create_all rejects i ms store = store @ cs \<and> set cs \<subseteq> set ms
     \<and> (distinct (map f ms) \<longrightarrow> distinct (map f cs))
     \<and> (distinct (map g ms) \<longrightarrow> distinct (map g cs))"
proof (induction ms arbitrary: i store)
  case Nil
  then show ?case by simp
next
  case (Cons m ms)
  show ?case
  proof (cases "rejects i")
    case True
    from Cons.IH [of "Suc i" store] obtain cs
      where "create_all rejects (Suc i) ms store = store @ cs" "set cs \<subseteq> set ms"
        "distinct (map f ms) \<longrightarrow> distinct (map f cs)"
        "distinct (map g ms) \<longrightarrow> distinct (map g cs)"
      by blast
    with True show ?thesis by (intro exI [of _ cs]) auto
  next
    case False
    from Cons.IH [of "Suc i" "store @ [m]"] obtain cs
      where "create_all rejects (Suc i) ms (store @ [m]) = (store @ [m]) @ cs"
        "set cs \<subseteq> set ms"
        "distinct (map f ms) \<longrightarrow> distinct (map f cs)"
        "distinct (map g ms) \<longrightarrow> distinct (map g cs)"
      by blast
    with False show ?thesis by (intro exI [of _ "m # cs"]) auto
  qed
qed

lemma airtableFetch_Inr:
  assumes "airtableFetch toLowerCase env store = Inr store'"
  shows "store' = create_all (create_rejects env) 0
           (newMembers toLowerCase (map to_member (records env)) (existingMembers store)) store"
  using assms by (simp add: airtableFetch_def Let_def split: if_splits)

lemma newMembers_iff:
  "c \<in> set (newMembers toLowerCase cands existing) \<longleftrightarrow>
     c \<in> set cands \<and> airtable_id c \<notin> existingAirtableIds existing
     \<and> toLowerCase (email c) \<notin> existingEmails toLowerCase existing"
  by (auto simp: newMembers_def)

text \<open>The filter in terms of the records themselves.\<close>

lemma newMembers_raw:
  "c \<in> set (newMembers toLowerCase cands existing) \<longleftrightarrow>
     c \<in> set cands \<and> (\<forall>e\<in>set existing. airtable_id e \<noteq> airtable_id c)
     \<and> (\<forall>e\<in>set existing. toLowerCase (email e) \<noteq> toLowerCase (email c))"
  unfolding newMembers_iff existingAirtableIds_def existingEmails_def set_map
  by (auto simp: image_iff)

lemma existingMembers_short: "length store \<le> 1000 \<Longrightarrow> existingMembers store = store"
  by (simp add: existingMembers_def)

subsection \<open>A collection larger than the page\<close>

lemma late_to_member: "to_member late_record = late_member"
  by code_simp

lemma same_id_to_member: "to_member same_id_record = same_id_member"
  by code_simp

lemma length_page_store: "length page_store = 1000"
  by (simp add: page_store_def)

lemma existing_page_store: "existingMembers (page_store @ xs) = page_store"
  by (simp add: existingMembers_def length_page_store)

lemma ascii_lower_user: "ascii_lower (''user'' @ xs) = ''user'' @ ascii_lower xs"
  by (simp add: ascii_lower_def lower_char_def)

lemma page_store_elem:
  assumes "p \<in> set page_store"
  obtains n where "p = nth_pending n"
  using assms unfolding page_store_def set_map by blast

text \<open>
  A candidate with the id \<open>app1\<close> and an email that starts with \<open>z\<close> passes the filter against
  the page.
\<close>

lemma new_for_page:
  assumes i: "airtable_id c = ''app1''"
    and l: "ascii_lower (email c) = CHR ''z'' # rest"
  shows "newMembers ascii_lower [c] page_store = [c]"
proof -
  have a: "airtable_id e \<noteq> airtable_id c" if "e \<in> set page_store" for e
  proof -
    from that obtain n where n: "e = nth_pending n" by (rule page_store_elem)
    have "airtable_id (nth_pending n) = ''rec'' @ digits n" by (simp add: nth_pending_def)
    with i n show ?thesis by simp
  qed
  have b: "ascii_lower (email e) \<noteq> ascii_lower (email c)" if "e \<in> set page_store" for e
  proof -
    from that obtain n where n: "e = nth_pending n" by (rule page_store_elem)
    have "ascii_lower (email (nth_pending n)) = ''user'' @ ascii_lower (digits n @ ''@x.com'')"
      using ascii_lower_user [of "digits n @ ''@x.com''"] by (simp add: nth_pending_def)
    with l n show ?thesis by simp
  qed
  have "c \<in> set (newMembers ascii_lower [c] page_store)"
    unfolding newMembers_raw using a b by simp
  then show ?thesis by (simp add: newMembers_def split: if_splits)
qed

lemma late_is_new: "newMembers ascii_lower [late_member] page_store = [late_member]"
proof -
  have "airtable_id late_member = ''app1''" by code_simp
  moreover have "ascii_lower (email late_member) = CHR ''z'' # ''oe@x.com''" by code_simp
  ultimately show ?thesis by (rule new_for_page)
qed

lemma same_id_is_new: "newMembers ascii_lower [same_id_member] page_store = [same_id_member]"
proof -
  have "airtable_id same_id_member = ''app1''" by code_simp
  moreover have "ascii_lower (email same_id_member) = CHR ''z'' # ''ed@x.com''" by code_simp
  ultimately show ?thesis by (rule new_for_page)
qed

lemma late_run:
  "airtableFetch ascii_lower late_env (page_store @ xs) = Inr ((page_store @ xs) @ [late_member])"
  by (simp add: airtableFetch_def late_env_def late_to_member existing_page_store late_is_new
      never_def)

lemma same_id_run:
  "airtableFetch ascii_lower same_id_env (page_store @ xs)
     = Inr ((page_store @ xs) @ [same_id_member])"
  by (simp add: airtableFetch_def same_id_env_def same_id_to_member existing_page_store
      same_id_is_new never_def)

subsection \<open>Which candidates are created\<close>

text \<open>
  Claim C7 as stated fails: the sets are built from the page of 1000 records the run reads,
  not from all existing pending members. The collection holds 1001 pending members, the last
  of them with the external id \<open>app1\<close>; a candidate with that id is created all the same.
\<close>

theorem stored_id_beyond_the_page_is_created:
  "length (page_store @ [late_member]) = 1001
   \<and> airtable_id same_id_member = airtable_id late_member
   \<and> to_member same_id_record = same_id_member
   \<and> airtableFetch ascii_lower same_id_env (page_store @ [late_member])
       = Inr ((page_store @ [late_member]) @ [same_id_member])
   \<and> created_by (page_store @ [late_member]) ((page_store @ [late_member]) @ [same_id_member])
       = [same_id_member]"
proof -
  have "length (page_store @ [late_member]) = 1001" by (simp add: length_page_store)
  moreover have "airtable_id same_id_member = airtable_id late_member" by code_simp
  moreover have "created_by (page_store @ [late_member])
      ((page_store @ [late_member]) @ [same_id_member]) = [same_id_member]"
    by (simp add: created_by_def)
  ultimately show ?thesis using same_id_to_member same_id_run [of "[late_member]"] by blast
qed

text \<open>
  Claim C7, amended. Whatever function \<open>toLowerCase\<close> is: a pending member that a run creates
  is a candidate whose external id is the id of none of the first 1000 existing pending
  members (by \<open>id\<close>, the page the run reads) and whose lower-cased email is the lower-cased
  email of none of them. In a run whose calls of \<open>create\<close> are all accepted the converse holds
  too: a candidate is created if and only if neither is the case; and when the collection
  holds at most 1000 pending members, these are all the existing ones. In particular, since
  \<open>A@x.com\<close> and \<open>a@x.com\<close> have the same lower-cased form, a candidate with the email
  \<open>A@x.com\<close> is skipped when one of the pending members read has the email \<open>a@x.com\<close>.
\<close>

theorem new_iff_id_and_email_unknown:
  assumes "airtableFetch toLowerCase env store = Inr store'"
  shows "(\<forall>c. c \<in> set (created_by store store') \<longrightarrow>
            c \<in> set (map to_member (records env))
            \<and> (\<forall>e\<in>set (take 1000 store). airtable_id e \<noteq> airtable_id c)
            \<and> (\<forall>e\<in>set (take 1000 store). toLowerCase (email e) \<noteq> toLowerCase (email c)))
     \<and> ((\<forall>j. \<not> create_rejects env j) \<longrightarrow>
          (\<forall>c. c \<in> set (created_by store store') \<longleftrightarrow>
             c \<in> set (map to_member (records env))
             \<and> (\<forall>e\<in>set (take 1000 store). airtable_id e \<noteq> airtable_id c)
             \<and> (\<forall>e\<in>set (take 1000 store).
                   toLowerCase (email e) \<noteq> toLowerCase (email c))))
     \<and> ((\<forall>j. \<not> create_rejects env j) \<and> length store \<le> 1000 \<longrightarrow>
          (\<forall>c. c \<in> set (created_by store store') \<longleftrightarrow>
             c \<in> set (map to_member (records env))
             \<and> (\<forall>e\<in>set store. airtable_id e \<noteq> airtable_id c)
             \<and> (\<forall>e\<in>set store. toLowerCase (email e) \<noteq> toLowerCase (email c))))
     \<and> (\<forall>c e. e \<in> set (take 1000 store) \<and> email e = ''a@x.com'' \<and> email c = ''A@x.com''
            \<and> toLowerCase ''A@x.com'' = toLowerCase ''a@x.com'' \<longrightarrow>
            c \<notin> set (created_by store store'))"
proof -
  let ?new = "newMembers toLowerCase (map to_member (records env)) (take 1000 store)"
  let ?P = "\<lambda>c. c \<in> set (map to_member (records env))
             \<and> (\<forall>e\<in>set (take 1000 store). airtable_id e \<noteq> airtable_id c)
             \<and> (\<forall>e\<in>set (take 1000 store). toLowerCase (email e) \<noteq> toLowerCase (email c))"
  have new: "c \<in> set ?new \<longleftrightarrow> ?P c" for c by (rule newMembers_raw)
  from create_all_shape [of "create_rejects env" 0 ?new store id id]
  obtain cs where cs: "create_all (create_rejects env) 0 ?new store = store @ cs"
    "set cs \<subseteq> set ?new"
    by blast
  from airtableFetch_Inr [OF assms] cs(1) have "store' = store @ cs"
    by (simp add: existingMembers_def)
  then have cr: "created_by store store' = cs" by (simp add: created_by_def)
  have one: "\<forall>c. c \<in> set (created_by store store') \<longrightarrow> ?P c"
    using cr cs(2) new by blast
  have two: "\<forall>c. c \<in> set (created_by store store') \<longleftrightarrow> ?P c"
    if "\<forall>j. \<not> create_rejects env j"
  proof -
    from create_all_never [OF that] cs(1) have "cs = ?new" by simp
    with cr new show ?thesis by simp
  qed
  have three: "\<forall>c. c \<in> set (created_by store store') \<longleftrightarrow>
             c \<in> set (map to_member (records env))
             \<and> (\<forall>e\<in>set store. airtable_id e \<noteq> airtable_id c)
             \<and> (\<forall>e\<in>set store. toLowerCase (email e) \<noteq> toLowerCase (email c))"
    if "\<forall>j. \<not> create_rejects env j" "length store \<le> 1000"
    using two [OF that(1)] that(2) by simp
  have four: "c \<notin> set (created_by store store')"
    if "e \<in> set (take 1000 store)" "email e = ''a@x.com''" "email c = ''A@x.com''"
      "toLowerCase ''A@x.com'' = toLowerCase ''a@x.com''" for c e
  proof
    assume "c \<in> set (created_by store store')"
    with one have "\<forall>e\<in>set (take 1000 store). toLowerCase (email e) \<noteq> toLowerCase (email c)"
      by blast
    with that show False by auto
  qed
  from one two three four show ?thesis by blast
qed

text \<open>
  A run with three candidates on a collection of one pending member: the first has the id of
  that member, the second its email up to case, the third is unknown.
\<close>

lemma three_run:
  "airtableFetch ascii_lower three_env [old_member] = Inr [old_member, late_member]"
  by code_simp

lemma mixed_run:
  "airtableFetch ascii_lower mixed_env [old_member] = Inr [old_member, late_member]"
  by code_simp

text \<open>The candidates known by id and by email are skipped, the third one is created.\<close>

theorem new_iff_id_and_email_unknown_witness:
  "airtableFetch ascii_lower three_env [old_member] = Inr [old_member, late_member]
   \<and> length [old_member] \<le> 1000
   \<and> airtable_id (to_member known_id_record) = airtable_id old_member
   \<and> email (to_member upper_record) = ''A@x.com'' \<and> email old_member = ''a@x.com''
   \<and> ascii_lower ''A@x.com'' = ascii_lower ''a@x.com''
   \<and> to_member known_id_record \<notin> set (created_by [old_member] [old_member, late_member])
   \<and> to_member upper_record \<notin> set (created_by [old_member] [old_member, late_member])
   \<and> to_member late_record \<in> set (created_by [old_member] [old_member, late_member])"
proof -
  have n: "\<forall>j. \<not> create_rejects three_env j" by (simp add: three_env_def never_def)
  have len: "length [old_member] \<le> 1000" by simp
  have i: "airtable_id (to_member known_id_record) = airtable_id old_member" by code_simp
  have e: "email (to_member upper_record) = ''A@x.com''" by code_simp
  have o: "email old_member = ''a@x.com''" by code_simp
  have lc: "ascii_lower ''A@x.com'' = ascii_lower ''a@x.com''" by code_simp
  have x: "old_member \<in> set (take 1000 [old_member])" by simp
  note t = new_iff_id_and_email_unknown [OF three_run]
  from t n len
  have iff: "\<forall>c. c \<in> set (created_by [old_member] [old_member, late_member]) \<longleftrightarrow>
             c \<in> set (map to_member (records three_env))
             \<and> (\<forall>e\<in>set [old_member]. airtable_id e \<noteq> airtable_id c)
             \<and> (\<forall>e\<in>set [old_member]. ascii_lower (email e) \<noteq> ascii_lower (email c))"
    by blast
  from iff i
  have a: "to_member known_id_record \<notin> set (created_by [old_member] [old_member, late_member])"
    by auto
  from t e o lc x
  have b: "to_member upper_record \<notin> set (created_by [old_member] [old_member, late_member])"
    by blast
  have "to_member late_record \<in> set (map to_member (records three_env))"
    by (simp add: three_env_def)
  moreover have "airtable_id old_member \<noteq> airtable_id (to_member late_record)" by code_simp
  moreover have "ascii_lower (email old_member) \<noteq> ascii_lower (email (to_member late_record))"
    by code_simp
  ultimately
  have c: "to_member late_record \<in> set (created_by [old_member] [old_member, late_member])"
    using iff by simp
  from three_run len i e o lc a b c show ?thesis by blast
qed

subsection \<open>Running twice\<close>

text \<open>
  Claim C8, amended. After a run in which every \<open>create\<close> was accepted and which leaves at
  most 1000 pending members in the collection, a second run over the same external records
  creates nothing: every candidate is filtered out as a duplicate.
\<close>

theorem second_run_creates_nothing:
  assumes "airtableFetch toLowerCase env store = Inr store1"
    and "\<forall>j. \<not> create_rejects env j"
    and "length store1 \<le> 1000"
    and "records env2 = records env"
    and "airtableFetch toLowerCase env2 store1 = Inr store2"
  shows "store2 = store1 \<and> created_by store1 store2 = []
     \<and> newMembers toLowerCase (map to_member (records env2)) (existingMembers store1) = []"
proof -
  let ?cands = "map to_member (records env)"
  let ?new = "newMembers toLowerCase ?cands (existingMembers store)"
  from airtableFetch_Inr [OF assms(1)] create_all_never [OF assms(2)]
  have s1: "store1 = store @ ?new" by simp
  with assms(3) have "length store \<le> 1000" by simp
  then have ex: "existingMembers store = store" by (rule existingMembers_short)
  have ex1: "existingMembers store1 = store1" using assms(3) by (rule existingMembers_short)
  have "c \<notin> set (newMembers toLowerCase ?cands store1)" for c
  proof
    assume c: "c \<in> set (newMembers toLowerCase ?cands store1)"
    then have in_c: "c \<in> set ?cands"
      and i1: "airtable_id c \<notin> existingAirtableIds store1"
      and e1: "toLowerCase (email c) \<notin> existingEmails toLowerCase store1"
      by (simp_all add: newMembers_iff)
    from i1 s1 have i0: "airtable_id c \<notin> existingAirtableIds store"
      by (simp add: existingAirtableIds_def)
    from e1 s1 have e0: "toLowerCase (email c) \<notin> existingEmails toLowerCase store"
      by (simp add: existingEmails_def)
    from in_c i0 e0 ex have "c \<in> set ?new" by (simp add: newMembers_iff)
    with s1 have "airtable_id c \<in> existingAirtableIds store1"
      by (simp add: existingAirtableIds_def)
    with i1 show False by simp
  qed
  then have "newMembers toLowerCase ?cands store1 = []"
    by (cases "newMembers toLowerCase ?cands store1") force+
  with assms(4) ex1
  have n: "newMembers toLowerCase (map to_member (records env2)) (existingMembers store1) = []"
    by simp
  with airtableFetch_Inr [OF assms(5)] have "store2 = store1" by simp
  with n show ?thesis by (simp add: created_by_def)
qed

text \<open>The run of the two candidates, repeated.\<close>

theorem second_run_creates_nothing_witness:
  "airtableFetch ascii_lower mixed_env [old_member] = Inr [old_member, late_member]
   \<and> length [old_member, late_member] \<le> 1000
   \<and> records mixed_env = records mixed_env
   \<and> airtableFetch ascii_lower mixed_env [old_member, late_member]
       = Inr [old_member, late_member]
   \<and> created_by [old_member, late_member] [old_member, late_member] = []"
proof -
  have n: "\<forall>j. \<not> create_rejects mixed_env j" by (simp add: mixed_env_def never_def)
  have l: "length [old_member, late_member] \<le> 1000" by simp
  have r: "airtableFetch ascii_lower mixed_env [old_member, late_member]
      = Inr [old_member, late_member]"
    by code_simp
  from second_run_creates_nothing [OF mixed_run n l refl r]
  have "created_by [old_member, late_member] [old_member, late_member] = []" by blast
  with mixed_run l r show ?thesis by blast
qed

text \<open>
  The condition on the first run is needed as well: a candidate whose \<open>create\<close> was rejected
  is not in the collection, and a later run creates it.
\<close>

lemma rejected_creates_come_back:
  "airtableFetch ascii_lower down_env [old_member] = Inr [old_member]
   \<and> airtableFetch ascii_lower late_env [old_member] = Inr [old_member, late_member]"
  by code_simp

text \<open>
  Claim C8 as stated fails: the run reads one page of 1000 existing pending members. On a
  collection that fills the page, the member a first run creates lies beyond it, so the
  second run over the same external records does not find it and creates it again.
\<close>

theorem second_run_creates_again:
  "length page_store = 1000
   \<and> airtableFetch ascii_lower late_env page_store = Inr (page_store @ [late_member])
   \<and> airtableFetch ascii_lower late_env (page_store @ [late_member])
       = Inr ((page_store @ [late_member]) @ [late_member])
   \<and> created_by (page_store @ [late_member]) ((page_store @ [late_member]) @ [late_member])
       = [late_member]"
proof -
  have "airtableFetch ascii_lower late_env page_store = Inr (page_store @ [late_member])"
    using late_run [of "[]"] by simp
  moreover have "created_by (page_store @ [late_member])
      ((page_store @ [late_member]) @ [late_member]) = [late_member]"
    by (simp add: created_by_def)
  ultimately show ?thesis using length_page_store late_run [of "[late_member]"] by blast
qed

subsection \<open>The uniqueness invariant\<close>

text \<open>
  Claim C9, amended. A run that starts from a collection of at most 1000 pending members in
  which no two share an \<open>airtableId\<close> or an email up to case, over a batch in which no two
  candidates share an id or an email up to case, leaves a collection with the same property,
  whichever calls of \<open>create\<close> the store rejects.
\<close>

theorem unique_preserved:
  assumes "pending_unique toLowerCase store"
    and "length store \<le> 1000"
    and "pending_unique toLowerCase (map to_member (records env))"
    and "airtableFetch toLowerCase env store = Inr store'"
  shows "pending_unique toLowerCase store'"
proof -
  let ?cands = "map to_member (records env)"
  let ?new = "newMembers toLowerCase ?cands store"
  let ?lo = "\<lambda>member. toLowerCase (email member)"
  have ex: "existingMembers store = store" using assms(2) by (rule existingMembers_short)
  from assms(3) have dn: "distinct (map airtable_id ?new)" "distinct (map ?lo ?new)"
    by (simp_all add: pending_unique_def newMembers_def distinct_map_filter)
  from create_all_shape [of "create_rejects env" 0 ?new store airtable_id ?lo] dn
  obtain cs where cs: "create_all (create_rejects env) 0 ?new store = store @ cs"
    "set cs \<subseteq> set ?new" "distinct (map airtable_id cs)" "distinct (map ?lo cs)"
    by blast
  from airtableFetch_Inr [OF assms(4)] ex cs(1) have s': "store' = store @ cs" by simp
  have fresh: "airtable_id x \<notin> airtable_id ` set store \<and> ?lo x \<notin> ?lo ` set store"
    if "x \<in> set cs" for x
  proof -
    from that cs(2) have "x \<in> set ?new" by blast
    then show ?thesis
      by (simp add: newMembers_iff existingAirtableIds_def existingEmails_def)
  qed
  have a: "airtable_id ` set store \<inter> airtable_id ` set cs = {}"
  proof (rule equals0I)
    fix y
    assume y: "y \<in> airtable_id ` set store \<inter> airtable_id ` set cs"
    then obtain x where x: "x \<in> set cs" "y = airtable_id x" by blast
    from y have "y \<in> airtable_id ` set store" by blast
    with x fresh [of x] show False by simp
  qed
  have b: "?lo ` set store \<inter> ?lo ` set cs = {}"
  proof (rule equals0I)
    fix y
    assume y: "y \<in> ?lo ` set store \<inter> ?lo ` set cs"
    then obtain x where x: "x \<in> set cs" "y = ?lo x" by blast
    from y have "y \<in> ?lo ` set store" by blast
    with x fresh [of x] show False by simp
  qed
  from assms(1) cs(3,4) a b show ?thesis
    unfolding s' pending_unique_def by simp
qed

text \<open>A batch of two applications with the emails \<open>A@x.com\<close> and \<open>a@x.com\<close>.\<close>

lemma twin_run: "airtableFetch ascii_lower twin_env [] = Inr [twin_upper, twin_lower]"
  by code_simp

text \<open>
  Claim C9 as stated fails: the filter compares a candidate with the existing pending members
  only, never with the other candidates of the batch. From the empty collection, two
  applications whose emails differ in case only are both created.
\<close>

theorem same_batch_duplicates_are_created:
  "pending_unique ascii_lower []
   \<and> airtableFetch ascii_lower twin_env [] = Inr [twin_upper, twin_lower]
   \<and> email twin_upper = ''A@x.com'' \<and> email twin_lower = ''a@x.com''
   \<and> ascii_lower (email twin_upper) = ascii_lower (email twin_lower)
   \<and> \<not> pending_unique ascii_lower [twin_upper, twin_lower]"
proof -
  have "pending_unique ascii_lower []" by (simp add: pending_unique_def)
  moreover have e: "ascii_lower (email twin_upper) = ascii_lower (email twin_lower)"
    by code_simp
  moreover from e have "\<not> pending_unique ascii_lower [twin_upper, twin_lower]"
    by (simp add: pending_unique_def)
  moreover have "email twin_upper = ''A@x.com'' \<and> email twin_lower = ''a@x.com''"
    by code_simp
  ultimately show ?thesis using twin_run by blast
qed

text \<open>The collection and the batch of the earlier example are duplicate-free.\<close>

lemma unique_old: "pending_unique ascii_lower [old_member]"
  by (simp add: pending_unique_def)

lemma unique_mixed: "pending_unique ascii_lower (map to_member (records mixed_env))"
  by code_simp

text \<open>The run of the two candidates keeps the collection duplicate-free.\<close>

theorem unique_preserved_witness:
  "pending_unique ascii_lower [old_member] \<and> length [old_member] \<le> 1000
   \<and> pending_unique ascii_lower (map to_member (records mixed_env))
   \<and> airtableFetch ascii_lower mixed_env [old_member] = Inr [old_member, late_member]
   \<and> pending_unique ascii_lower [old_member, late_member]"
proof -
  have l: "length [old_member] \<le> 1000" by simp
  from unique_preserved [OF unique_old l unique_mixed mixed_run] unique_old l unique_mixed
    mixed_run
  show ?thesis by blast
qed

end
